theory Spec2Isabelle
  imports Main
begin

section \<open>JavaScript strings and values\<close>

text \<open>
  Texts are lists of characters. \<open>jsSplit sep s\<close> is \<open>s.split(sep)\<close> for a string
  separator: the occurrences of \<open>sep\<close> are found from left to right without overlap, and
  the pieces between them are returned. An empty separator cuts the text into its
  characters.
\<close>

definition startsWith :: "'a list \<Rightarrow> 'a list \<Rightarrow> bool" where
  "startsWith s p = (take (length p) s = p)"

function jsSplit :: "'a list \<Rightarrow> 'a list \<Rightarrow> 'a list list" where
  "jsSplit sep [] = (if sep = [] then [] else [] # [])"
| "jsSplit sep (c # cs) =
     (if sep = [] then map (\<lambda>x. [x]) (c # cs)
      else if startsWith (c # cs) sep then [] # jsSplit sep (drop (length sep) (c # cs))
      else (case jsSplit sep cs of [] \<Rightarrow> [c] # [] | p # ps \<Rightarrow> (c # p) # ps))"
  by pat_completeness auto
termination
  by (relation "measure (\<lambda>(sep, s). length s)") (auto simp: startsWith_def)

text \<open>
  The result of \<open>JSON.parse\<close>. An object is the list of its members, each key held once.
  Numbers are the integers: a frame of the protocol carries no other number, and the code
  reads a number only through its truth value and its text.
\<close>

datatype json =
    JNull
  | JBool bool
  | JNum int
  | JStr string
  | JArr "json list"
  | JObj "(string \<times> json) list"

text \<open>The truth value of a parsed value in a condition (\<open>if (evt)\<close>, \<open>!!evt.done\<close>).\<close>

fun truthy :: "json \<Rightarrow> bool" where
  "truthy JNull = False"
| "truthy (JBool b) = b"
| "truthy (JNum n) = (n \<noteq> 0)"
| "truthy (JStr s) = (s \<noteq> [])"
| "truthy (JArr xs) = True"
| "truthy (JObj kvs) = True"

text \<open>
  Reading a member \<open>evt.key\<close> of a non-null parsed value; \<open>None\<close> is \<open>undefined\<close>. Only
  the keys \<open>type\<close>, \<open>message\<close>, \<open>chunk\<close> and \<open>done\<close> are ever read, and a string, a number,
  a boolean or an array has none of them.
\<close>

fun get_prop :: "json \<Rightarrow> string \<Rightarrow> json option" where
  "get_prop (JObj kvs) k = map_of kvs k"
| "get_prop v k = None"

fun truthy_opt :: "json option \<Rightarrow> bool" where
  "truthy_opt None = False"
| "truthy_opt (Some v) = truthy v"

function nat_to_dec :: "nat \<Rightarrow> string" where
  "nat_to_dec n =
     (if n < 10 then [char_of (48 + n)]
      else nat_to_dec (n div 10) @ [char_of (48 + n mod 10)])"
  by pat_completeness auto
termination
  by (relation "measure (\<lambda>n. n)") auto

definition int_to_dec :: "int \<Rightarrow> string" where
  "int_to_dec i = (if i < 0 then CHR ''-'' # nat_to_dec (nat (- i)) else nat_to_dec (nat i))"

definition join :: "string \<Rightarrow> string list \<Rightarrow> string" where
  "join sep xs = (case xs of [] \<Rightarrow> [] | y # ys \<Rightarrow> y @ concat (map (\<lambda>z. sep @ z) ys))"

text \<open>
  \<open>String(v)\<close>, the text that \<open>new Error(v)\<close> stores as its message. A number is printed
  in full, as the platform prints an integer of magnitude below \<open>10^21\<close>; beyond that the
  platform writes an exponent. The text is read nowhere but in the message of the
  exception of an error frame.
\<close>

fun jsString :: "json \<Rightarrow> string" where
  "jsString JNull = ''null''"
| "jsString (JBool b) = (if b then ''true'' else ''false'')"
| "jsString (JNum n) = int_to_dec n"
| "jsString (JStr s) = s"
| "jsString (JArr xs) = join '','' (map (\<lambda>x. if x = JNull then [] else jsString x) xs)"
| "jsString (JObj kvs) = ''[object Object]''"

text \<open>An exception value: its \<open>name\<close> and its \<open>message\<close>.\<close>

datatype js_error = JsError (err_name: string) (err_message: string)

section \<open>The frame decoder: \<open>streamCopilotChat\<close>\<close>

text \<open>
  The two callbacks are observed through the calls made to them, in order. A callback may
  throw: \<open>cb h c\<close> is the exception thrown by the call \<open>c\<close> when the calls \<open>h\<close> were made
  before it, if it throws. \<open>JSON.parse\<close> belongs to the platform and is a parameter:
  \<open>None\<close> is a \<open>SyntaxError\<close>.
\<close>

datatype call = OnProgress json | OnChunk string bool

record decoder =
  buffer :: string
  hadChunks :: bool
  sawDone :: bool
  calls :: "call list"

text \<open>
  The body of the inner \<open>try\<close> for one \<open>data: \<close> line: the exception that leaves the block,
  if one does, and the state at that moment or at the end of the block.
\<close>

definition try_line ::
  "(string \<Rightarrow> json option) \<Rightarrow> (call list \<Rightarrow> call \<Rightarrow> js_error option) \<Rightarrow> string \<Rightarrow> decoder
     \<Rightarrow> js_error option \<times> decoder" where
  "try_line json_parse cb line d =
     (case json_parse (drop 6 line) of
        None \<Rightarrow> (Some (JsError ''SyntaxError'' []), d)
      | Some evt \<Rightarrow>
          if truthy evt then
            if get_prop evt ''type'' = Some (JStr ''error'') then
              (Some (JsError ''Error''
                 (if truthy_opt (get_prop evt ''message'') then jsString (the (get_prop evt ''message''))
                  else ''Stream error'')), d)
            else
              let d1 = (if truthy_opt (get_prop evt ''type'')
                        then d\<lparr>calls := calls d @ [OnProgress evt]\<rparr> else d);
                  e1 = (if truthy_opt (get_prop evt ''type'')
                        then cb (calls d) (OnProgress evt) else None)
              in (case e1 of
                    Some e \<Rightarrow> (Some e, d1)
                  | None \<Rightarrow>
                      (case get_prop evt ''chunk'' of
                         Some (JStr c) \<Rightarrow>
                           (cb (calls d1) (OnChunk c (truthy_opt (get_prop evt ''done''))),
                            d1\<lparr>hadChunks := True,
                               sawDone := (if truthy_opt (get_prop evt ''done'') then True else sawDone d1),
                               calls := calls d1 @ [OnChunk c (truthy_opt (get_prop evt ''done''))]\<rparr>)
                       | _ \<Rightarrow> (None, d1)))
          else (None, d))"

text \<open>
  One line of a frame. The \<open>catch\<close> of the inner \<open>try\<close> has an empty body: whatever was
  thrown inside, the loop goes on with the next line.
\<close>

definition handle_line ::
  "(string \<Rightarrow> json option) \<Rightarrow> (call list \<Rightarrow> call \<Rightarrow> js_error option) \<Rightarrow> decoder \<Rightarrow> string
     \<Rightarrow> decoder" where
  "handle_line json_parse cb d line =
     (if startsWith line ''data: '' then snd (try_line json_parse cb line d) else d)"

definition handle_part ::
  "(string \<Rightarrow> json option) \<Rightarrow> (call list \<Rightarrow> call \<Rightarrow> js_error option) \<Rightarrow> decoder \<Rightarrow> string
     \<Rightarrow> decoder" where
  "handle_part json_parse cb d part = foldl (handle_line json_parse cb) d (jsSplit ''\<newline>'' part)"

text \<open>
  One pass of the \<open>while\<close> loop for a read that delivered the text \<open>delta\<close>: the buffer is
  cut at blank lines, the last piece stays in the buffer, the others are handled.
\<close>

definition read_step ::
  "(string \<Rightarrow> json option) \<Rightarrow> (call list \<Rightarrow> call \<Rightarrow> js_error option) \<Rightarrow> decoder \<Rightarrow> string
     \<Rightarrow> decoder" where
  "read_step json_parse cb d delta =
     (let parts = jsSplit ''\<newline>\<newline>'' (buffer d @ delta)
      in foldl (handle_part json_parse cb) (d\<lparr>buffer := last parts\<rparr>) (butlast parts))"

definition decoder0 :: decoder where
  "decoder0 = \<lparr>buffer = [], hadChunks = False, sawDone = False, calls = []\<rparr>"

definition read_loop ::
  "(string \<Rightarrow> json option) \<Rightarrow> (call list \<Rightarrow> call \<Rightarrow> js_error option) \<Rightarrow> string list
     \<Rightarrow> decoder" where
  "read_loop json_parse cb deltas = foldl (read_step json_parse cb) decoder0 deltas"

text \<open>
  What the request meets. \<open>fetch\<close> rejects, or it answers with a status and a body; the
  body is the finite list of text deltas that the reads deliver, and then either the end
  of the stream or a read that rejects (an abort, a broken connection).
\<close>

datatype ending = EndOfStream | ReadRejects js_error

datatype response =
    FetchRejects js_error
  | Response (ok: bool) (status: nat) (deltas: "string list") (ending: ending)

text \<open>
  The two closing calls after the loop. Each stands in a \<open>try\<close> of its own with an empty
  \<open>catch\<close>, so the call is made and what it throws is dropped.
\<close>

definition finish_calls :: "decoder \<Rightarrow> call list" where
  "finish_calls d =
     calls d
     @ (if hadChunks d \<and> \<not> sawDone d then [OnChunk [] True] else [])
     @ (if \<not> hadChunks d then [OnChunk [] True] else [])"

text \<open>
  \<open>streamCopilotChat\<close>: the calls it makes to the callbacks, and the exception it rejects
  with, if any.
\<close>

fun streamCopilotChat ::
  "(string \<Rightarrow> json option) \<Rightarrow> (call list \<Rightarrow> call \<Rightarrow> js_error option) \<Rightarrow> response
     \<Rightarrow> call list \<times> js_error option" where
  "streamCopilotChat json_parse cb (FetchRejects e) = ([], Some e)"
| "streamCopilotChat json_parse cb (Response is_ok st ds en) =
     (if \<not> is_ok then ([], Some (JsError ''Error'' (''Stream failed: '' @ nat_to_dec st)))
      else (case en of
              ReadRejects e \<Rightarrow> (calls (read_loop json_parse cb ds), Some e)
            | EndOfStream \<Rightarrow> (finish_calls (read_loop json_parse cb ds), None)))"

text \<open>Callbacks that never throw.\<close>

definition never_throws :: "call list \<Rightarrow> 'a \<Rightarrow> js_error option" where
  "never_throws h c = None"

text \<open>A table of \<open>JSON.parse\<close> on the payloads used in the examples below.\<close>

definition json_parse_sample :: "string \<Rightarrow> json option" where
  \<open>json_parse_sample = map_of
     [(''{"chunk":"Hi","done":false}'', JObj [(''chunk'', JStr ''Hi''), (''done'', JBool False)]),
      (''{"chunk":" there","done":true}'', JObj [(''chunk'', JStr '' there''), (''done'', JBool True)]),
      (''{"chunk":"Hello wor","done":false}'', JObj [(''chunk'', JStr ''Hello wor''), (''done'', JBool False)]),
      (''{"type":"error","message":"boom"}'', JObj [(''type'', JStr ''error''), (''message'', JStr ''boom'')]),
      (''{"type":"progress_init","total":2}'', JObj [(''type'', JStr ''progress_init''), (''total'', JNum 2)])]\<close>

text \<open>Which calls deliver text, and which of them close the message.\<close>

fun is_chunk :: "call \<Rightarrow> bool" where
  "is_chunk (OnChunk c b) = True"
| "is_chunk (OnProgress e) = False"

fun is_final :: "call \<Rightarrow> bool" where
  "is_final (OnChunk c b) = b"
| "is_final (OnProgress e) = False"

fun chunk_text :: "call list \<Rightarrow> string" where
  "chunk_text [] = []"
| "chunk_text (OnChunk c b # cs) = c @ chunk_text cs"
| "chunk_text (OnProgress e # cs) = chunk_text cs"

definition dec_inv :: "decoder \<Rightarrow> bool" where
  "dec_inv d \<longleftrightarrow>
     sawDone d = list_ex is_final (calls d) \<and> hadChunks d = list_ex is_chunk (calls d)"

section \<open>The conversation store\<close>

text \<open>
  A message of a history and a conversation, as the objects the code builds. A field
  that an object may lack (\<open>elapsedMs\<close>, \<open>createdAt\<close>, \<open>pending\<close>) is an option;
  \<open>delete entry.pending\<close> sets it to \<open>None\<close>.
\<close>

datatype role = User | Assistant

record message =
  role :: role
  content :: string
  elapsedMs :: "nat option"
  createdAt :: "nat option"
  pending :: "bool option"

record conversation =
  conv_id :: string
  title :: string
  avatarUrl :: string
  history :: "message list"
  conv_createdAt :: nat

text \<open>
  The order of three kinds of effect is recorded as the program makes them: an
  assignment to \<open>isGenerating\<close>, an assignment \<open>conv.history = ...\<close> to the conversation of
  a given id, and the request sent by \<open>fetch\<close>.
\<close>

datatype effect =
    SetGenerating bool
  | SetHistory string "message list"
  | Fetch "(role \<times> string) list"

text \<open>
  The variables of the page that the conversation code reads and writes, the two keys of
  \<open>localStorage\<close> that \<open>saveConversations\<close> sets, and what the platform supplies: whether
  \<open>localStorage.setItem\<close> throws, the value of \<open>Date.now()\<close> (read as one value during a
  handler; no property below depends on a timestamp), the value of the next \<open>genId()\<close>, and the
  default avatar. The page's elements are not part of the state, except the text of the
  input field.
\<close>

record app =
  conversations :: "conversation list"
  activeConversationId :: "string option"
  chatHistory :: "message list"
  isGenerating :: bool
  lastUserMessage :: string
  userInput :: string
  storedConversations :: "conversation list option"
  storedActive :: "string option"
  effects :: "effect list"
  storageFails :: bool
  now :: nat
  nextId :: string
  defaultAvatar :: string

text \<open>\<open>conversations.find(c => c.id === id)\<close>, for an id that may be \<open>null\<close>.\<close>

definition find_conv :: "string option \<Rightarrow> conversation list \<Rightarrow> conversation option" where
  "find_conv cid cs = find (\<lambda>c. Some (conv_id c) = cid) cs"

definition getActiveConv :: "app \<Rightarrow> conversation option" where
  "getActiveConv s = find_conv (activeConversationId s) (conversations s)"

text \<open>An assignment to a field of the object that \<open>find\<close> returned: the first match changes.\<close>

fun update_first :: "('a \<Rightarrow> bool) \<Rightarrow> ('a \<Rightarrow> 'a) \<Rightarrow> 'a list \<Rightarrow> 'a list" where
  "update_first P f [] = []"
| "update_first P f (x # xs) = (if P x then f x # xs else x # update_first P f xs)"

text \<open>
  \<open>saveConversations\<close>: both keys are set, unless \<open>setItem\<close> throws, which the \<open>catch\<close>
  swallows.
\<close>

definition saveConversations :: "app \<Rightarrow> app" where
  "saveConversations s =
     (if storageFails s then s
      else s\<lparr>storedConversations := Some (conversations s),
             storedActive := Some (case activeConversationId s of None \<Rightarrow> [] | Some a \<Rightarrow> a)\<rparr>)"

definition set_history :: "string \<Rightarrow> message list \<Rightarrow> app \<Rightarrow> app" where
  "set_history cid h s =
     s\<lparr>conversations := update_first (\<lambda>c. conv_id c = cid) (\<lambda>c. c\<lparr>history := h\<rparr>) (conversations s),
       effects := effects s @ [SetHistory cid h]\<rparr>"

definition persistConversationHistory :: "string option \<Rightarrow> message list \<Rightarrow> app \<Rightarrow> app" where
  "persistConversationHistory cid h s =
     (case find_conv cid (conversations s) of
        None \<Rightarrow> s
      | Some conv \<Rightarrow> saveConversations (set_history (conv_id conv) h s))"

definition createNewConversation :: "string option \<Rightarrow> app \<Rightarrow> app" where
  "createNewConversation title_arg s =
     (let t = (case title_arg of None \<Rightarrow> ''New Conversation''
                | Some x \<Rightarrow> if x = [] then ''New Conversation'' else x);
          conv = \<lparr>conv_id = nextId s, title = t, avatarUrl = defaultAvatar s,
                  history = [], conv_createdAt = now s\<rparr>;
          s1 = saveConversations
                 (s\<lparr>conversations := conversations s @ [conv],
                    activeConversationId := Some (nextId s)\<rparr>)
      in s1\<lparr>chatHistory := [], userInput := []\<rparr>)"

text \<open>\<open>conversations.findIndex(c => c.id === id)\<close>; \<open>None\<close> is \<open>-1\<close>.\<close>

fun findIndex :: "('a \<Rightarrow> bool) \<Rightarrow> 'a list \<Rightarrow> nat option" where
  "findIndex P [] = None"
| "findIndex P (x # xs) =
     (if P x then Some 0 else (case findIndex P xs of None \<Rightarrow> None | Some i \<Rightarrow> Some (Suc i)))"

text \<open>\<open>conversations.splice(idx, 1)\<close>.\<close>

definition splice1 :: "nat \<Rightarrow> 'a list \<Rightarrow> 'a list" where
  "splice1 idx xs = take idx xs @ drop (Suc idx) xs"

definition deleteConversation :: "string \<Rightarrow> app \<Rightarrow> app" where
  "deleteConversation i s =
     (case findIndex (\<lambda>c. conv_id c = i) (conversations s) of
        None \<Rightarrow> s
      | Some idx \<Rightarrow>
          let wasActive = (activeConversationId s = Some i);
              s1 = s\<lparr>conversations := splice1 idx (conversations s)\<rparr>
          in if conversations s1 = [] then
               createNewConversation None (saveConversations (s1\<lparr>activeConversationId := None\<rparr>))
             else if wasActive then
               let nextIdx = min idx (length (conversations s1) - 1);
                   a = Some (conv_id (conversations s1 ! nextIdx));
                   s2 = s1\<lparr>activeConversationId := a\<rparr>;
                   s3 = s2\<lparr>chatHistory := (case find_conv a (conversations s2) of
                                              None \<Rightarrow> [] | Some conv \<Rightarrow> history conv),
                           userInput := []\<rparr>
               in saveConversations s3
             else saveConversations s1)"

section \<open>The generation session: \<open>sendMessage\<close>\<close>

text \<open>
  White space as \<open>trim\<close> and the class \<open>\\s\<close> know it, among the characters below 256: tab,
  line feed, vertical tab, form feed, carriage return, space and the no-break space.
\<close>

definition is_space :: "char \<Rightarrow> bool" where
  "is_space c \<longleftrightarrow> of_char c \<in> {9, 10, 11, 12, 13, 32, 160 :: nat}"

definition trim :: "string \<Rightarrow> string" where
  "trim s = rev (dropWhile is_space (rev (dropWhile is_space s)))"

text \<open>
  \<open>s.split(/\\s+/).filter(Boolean)\<close>: the maximal runs of characters other than white
  space. \<open>cur\<close> is the run being read.
\<close>

fun words_from :: "string \<Rightarrow> string \<Rightarrow> string list" where
  "words_from cur [] = (if cur = [] then [] else [cur])"
| "words_from cur (c # cs) =
     (if is_space c then (if cur = [] then [] else [cur]) @ words_from [] cs
      else words_from (cur @ [c]) cs)"

definition js_words :: "string \<Rightarrow> string list" where
  "js_words s = words_from [] s"

text \<open>
  Letters compared without case, as a pattern with the flag \<open>i\<close> does for a pattern of
  ASCII letters: only the two ASCII forms of a letter match it.
\<close>

definition lower :: "char \<Rightarrow> char" where
  "lower c = (if 65 \<le> (of_char c :: nat) \<and> (of_char c :: nat) \<le> 90
              then char_of (of_char c + 32 :: nat) else c)"

text \<open>\<open>/abort/i.test(m)\<close>: the word occurs somewhere in \<open>m\<close>, in any case.\<close>

fun contains_ci :: "string \<Rightarrow> string \<Rightarrow> bool" where
  "contains_ci pat [] = (pat = [])"
| "contains_ci pat (c # cs) =
     (startsWith (map lower (c # cs)) pat \<or> contains_ci pat cs)"

definition wasAborted :: "js_error \<Rightarrow> bool" where
  "wasAborted e \<longleftrightarrow> err_name e = ''AbortError'' \<or> contains_ci ''abort'' (err_message e)"

text \<open>
  The part of \<open>addMessageToChat(role, content)\<close> that is not drawing: the message joins
  \<open>chatHistory\<close>, and the active conversation, when there is one, takes a copy of it.
\<close>

definition addMessageToChat :: "role \<Rightarrow> string \<Rightarrow> app \<Rightarrow> app" where
  "addMessageToChat r c s =
     (let s1 = s\<lparr>chatHistory := chatHistory s
                   @ [\<lparr>role = r, content = c, elapsedMs = None, createdAt = Some (now s),
                       pending = None\<rparr>]\<rparr>
      in (case getActiveConv s1 of
            None \<Rightarrow> s1
          | Some conv \<Rightarrow> saveConversations (set_history (conv_id conv) (chatHistory s1) s1)))"

definition buildCopilotMessages :: "app \<Rightarrow> (role \<times> string) list" where
  "buildCopilotMessages s = map (\<lambda>m. (role m, content m)) (chatHistory s)"

text \<open>
  The first message of a conversation that still has a default title names it: the
  first four words of the message's first line.
\<close>

definition rename_from_message :: "string \<Rightarrow> app \<Rightarrow> app" where
  "rename_from_message message s =
     (case getActiveConv s of
        None \<Rightarrow> s
      | Some conv \<Rightarrow>
          if title conv = [] \<or> map lower (title conv) = ''new conversation''
             \<or> map lower (title conv) = ''conversation''
          then
            let firstLine = trim (case jsSplit ''\<newline>'' message of [] \<Rightarrow> [] | l # ls \<Rightarrow> l);
                t = join '' '' (take 4 (js_words firstLine))
            in if t \<noteq> [] then
                 saveConversations
                   (s\<lparr>conversations :=
                        update_first (\<lambda>c. conv_id c = conv_id conv) (\<lambda>c. c\<lparr>title := t\<rparr>)
                          (conversations s)\<rparr>)
               else s
          else s)"

text \<open>
  The local variables of one run of \<open>sendMessage\<close>, beside the page's variables.
  \<open>divLoading\<close> says whether the element of the assistant's message still has the class
  \<open>loading\<close>. \<open>assistantPendingIndex\<close> is a number: the block that sets it cannot throw
  before the assignment. The histories hold values: every change that the code makes to
  the pending entry of \<open>generatingHistory\<close> is followed at once by
  \<open>persistConversationHistory\<close>, which gives the conversation the same list.
\<close>

record session =
  page :: app
  generatingConvId :: "string option"
  generatingHistory :: "message list"
  streamedContent :: string
  assistantPendingIndex :: nat
  divLoading :: bool

text \<open>
  \<open>sendMessage\<close> from its first statement after the two guards up to the \<open>try\<close> that
  sends the request, in the order of the source.
\<close>

definition start_session :: "string \<Rightarrow> app \<Rightarrow> session" where
  "start_session message s =
     (let s1 = s\<lparr>isGenerating := True, effects := effects s @ [SetGenerating True]\<rparr>;
          gid = activeConversationId s1;
          gh0 = (case find_conv gid (conversations s1) of None \<Rightarrow> [] | Some conv \<Rightarrow> history conv);
          s2 = rename_from_message message s1;
          s3 = s2\<lparr>lastUserMessage := message\<rparr>;
          s4 = addMessageToChat User message s3;
          gh1 = gh0 @ [\<lparr>role = User, content = message, elapsedMs = None,
                         createdAt = Some (now s4), pending = None\<rparr>];
          s5 = persistConversationHistory gid gh1 s4;
          s6 = s5\<lparr>userInput := []\<rparr>;
          gh2 = gh1 @ [\<lparr>role = Assistant, content = ''Generating...'', elapsedMs = None,
                         createdAt = Some (now s6), pending = Some True\<rparr>];
          s7 = persistConversationHistory gid gh2 s6;
          s8 = s7\<lparr>effects := effects s7 @ [Fetch (buildCopilotMessages s7 @ [(User, message)])]\<rparr>
      in \<lparr>page = s8, generatingConvId = gid, generatingHistory = gh2, streamedContent = [],
          assistantPendingIndex = length gh1, divLoading = True\<rparr>)"

text \<open>
  Writing the entry at \<open>assistantPendingIndex\<close>. The index is that of the pending entry
  pushed by \<open>start_session\<close> and the list never gets shorter, so the index is in range; at
  the length of the list the assignment appends.
\<close>

definition put_entry :: "nat \<Rightarrow> message \<Rightarrow> message list \<Rightarrow> message list" where
  "put_entry i m h = (if i < length h then h[i := m] else h @ [m])"

text \<open>The chunk callback.\<close>

definition onChunk :: "string \<Rightarrow> bool \<Rightarrow> session \<Rightarrow> session" where
  "onChunk chunk done x =
     (let i = assistantPendingIndex x;
          sc = streamedContent x @ chunk;
          entry = (if i < length (generatingHistory x) then generatingHistory x ! i
                   else \<lparr>role = Assistant, content = [], elapsedMs = None, createdAt = None,
                         pending = None\<rparr>);
          gh = put_entry i (entry\<lparr>content := sc, pending := Some (\<not> done)\<rparr>) (generatingHistory x);
          x1 = x\<lparr>divLoading := False, streamedContent := sc, generatingHistory := gh,
                 page := persistConversationHistory (generatingConvId x) gh (page x)\<rparr>
      in if done then
           let gh' = (if i < length gh then gh[i := (gh ! i)\<lparr>content := sc, pending := None\<rparr>] else gh);
               p = (if i < length gh
                    then persistConversationHistory (generatingConvId x1) gh' (page x1)
                    else page x1)
           in x1\<lparr>generatingHistory := gh',
                 page := p\<lparr>isGenerating := False, effects := effects p @ [SetGenerating False]\<rparr>\<rparr>
         else x1)"

text \<open>
  The progress callback draws the progress card and changes nothing else. Drawing a step
  can throw when no card has been drawn; the card is not part of the state, so which calls
  of the progress callback throw is a parameter \<open>pt\<close> of the run, a function of the calls
  made before. The chunk callback writes into the element that \<open>sendMessage\<close> made and
  does not throw.
\<close>

definition session_callbacks ::
  "(call list \<Rightarrow> json \<Rightarrow> js_error option) \<Rightarrow> call list \<Rightarrow> call \<Rightarrow> js_error option" where
  "session_callbacks pt h c = (case c of OnChunk t b \<Rightarrow> None | OnProgress e \<Rightarrow> pt h e)"

fun apply_call :: "session \<Rightarrow> call \<Rightarrow> session" where
  "apply_call x (OnChunk c b) = onChunk c b x"
| "apply_call x (OnProgress e) = x"

text \<open>
  The \<open>catch\<close> of \<open>sendMessage\<close>. The element of the assistant's message always exists, so
  of the two ways of drawing the outcome only the one that writes into it is taken; the
  stored entry is rewritten only when some text has streamed.
\<close>

definition on_error :: "js_error \<Rightarrow> session \<Rightarrow> session" where
  "on_error e x =
     (let aborted = wasAborted e;
          errorMsg = ''Error: '' @ (if err_message e \<noteq> [] then err_message e else ''Unknown error'');
          i = assistantPendingIndex x;
          gh = generatingHistory x;
          finalContent = (if aborted then streamedContent x @ ''\<newline>\<newline>[Generation stopped]''
                          else streamedContent x @ ''\<newline>\<newline>'' @ errorMsg);
          x1 = x\<lparr>divLoading := False\<rparr>;
          x2 = (if streamedContent x \<noteq> [] \<and> i < length gh then
                  let gh' = gh[i := (gh ! i)\<lparr>content := finalContent, pending := None\<rparr>]
                  in x1\<lparr>generatingHistory := gh',
                        page := persistConversationHistory (generatingConvId x1) gh' (page x1)\<rparr>
                else x1)
      in x2\<lparr>page := (page x2)\<lparr>isGenerating := False,
                               effects := effects (page x2) @ [SetGenerating False]\<rparr>\<rparr>)"

text \<open>
  A run of \<open>sendMessage\<close> past its guards, for the message and the answer of the network.
  The run is taken whole: the calls of the callbacks follow one another as the decoder
  makes them, and no handler of another event of the page runs between two reads.
\<close>

definition run_session ::
  "(string \<Rightarrow> json option) \<Rightarrow> (call list \<Rightarrow> json \<Rightarrow> js_error option) \<Rightarrow> string \<Rightarrow> response
     \<Rightarrow> app \<Rightarrow> session" where
  "run_session json_parse pt message resp s =
     (let x0 = start_session message s;
          r = streamCopilotChat json_parse (session_callbacks pt) resp;
          x1 = foldl apply_call x0 (fst r)
      in (case snd r of None \<Rightarrow> x1 | Some e \<Rightarrow> on_error e x1))"

definition sendMessage ::
  "(string \<Rightarrow> json option) \<Rightarrow> (call list \<Rightarrow> json \<Rightarrow> js_error option) \<Rightarrow> response \<Rightarrow> app
     \<Rightarrow> app" where
  "sendMessage json_parse pt resp s =
     (if isGenerating s then s
      else let message = trim (userInput s)
           in if message = [] then s
              else page (run_session json_parse pt message resp s))"

section \<open>Regular expressions\<close>

text \<open>
  The patterns of the renderer are terms of \<open>rx\<close>, matched the way the platform matches
  them: by backtracking, the alternatives tried from left to right, a greedy star trying
  one more round before stopping and a lazy one stopping before trying one more round. A
  state of the matcher is the text consumed so far (reversed), the text still ahead, and
  the captures made. \<open>rx_match r st\<close> lists the states in which a match of \<open>r\<close> from \<open>st\<close>
  can end, in the order of preference; the platform takes the first.
\<close>

datatype rx =
    Lit char
  | Cls "char \<Rightarrow> bool"
  | Eps
  | Seq rx rx
  | Alt rx rx
  | Star rx
  | StarLazy rx
  | Grp nat rx
  | Bol
  | Eol
  | WordB

type_synonym mstate = "string \<times> string \<times> (nat \<times> string) list"

definition ahead :: "mstate \<Rightarrow> string" where
  "ahead st = fst (snd st)"

text \<open>
  A round of a star that consumes nothing is refused; every other round shortens the text
  ahead, so its length bounds the number of rounds.
\<close>

fun star_greedy :: "nat \<Rightarrow> (mstate \<Rightarrow> mstate list) \<Rightarrow> mstate \<Rightarrow> mstate list" where
  "star_greedy 0 f st = [st]"
| "star_greedy (Suc n) f st =
     concat (map (star_greedy n f)
               (filter (\<lambda>st'. length (ahead st') < length (ahead st)) (f st))) @ [st]"

fun star_lazy :: "nat \<Rightarrow> (mstate \<Rightarrow> mstate list) \<Rightarrow> mstate \<Rightarrow> mstate list" where
  "star_lazy 0 f st = [st]"
| "star_lazy (Suc n) f st =
     st # concat (map (star_lazy n f)
                    (filter (\<lambda>st'. length (ahead st') < length (ahead st)) (f st)))"

definition is_word :: "char \<Rightarrow> bool" where
  "is_word c \<longleftrightarrow> (let n = (of_char c :: nat)
                 in (48 \<le> n \<and> n \<le> 57) \<or> (65 \<le> n \<and> n \<le> 90) \<or> (97 \<le> n \<and> n \<le> 122) \<or> n = 95)"

definition at_word_boundary :: "mstate \<Rightarrow> bool" where
  "at_word_boundary st =
     (let a = (case fst st of [] \<Rightarrow> False | c # cs \<Rightarrow> is_word c);
          b = (case ahead st of [] \<Rightarrow> False | c # cs \<Rightarrow> is_word c)
      in a \<noteq> b)"

primrec rx_match :: "rx \<Rightarrow> mstate \<Rightarrow> mstate list" where
  "rx_match (Lit c) =
     (\<lambda>st. case ahead st of [] \<Rightarrow> []
           | x # xs \<Rightarrow> if x = c then [(x # fst st, xs, snd (snd st))] else [])"
| "rx_match (Cls P) =
     (\<lambda>st. case ahead st of [] \<Rightarrow> []
           | x # xs \<Rightarrow> if P x then [(x # fst st, xs, snd (snd st))] else [])"
| "rx_match Eps = (\<lambda>st. [st])"
| "rx_match (Seq a b) = (\<lambda>st. concat (map (rx_match b) (rx_match a st)))"
| "rx_match (Alt a b) = (\<lambda>st. rx_match a st @ rx_match b st)"
| "rx_match (Star r) = (\<lambda>st. star_greedy (length (ahead st)) (rx_match r) st)"
| "rx_match (StarLazy r) = (\<lambda>st. star_lazy (length (ahead st)) (rx_match r) st)"
| "rx_match (Grp k r) =
     (\<lambda>st. map (\<lambda>st'. (fst st', ahead st',
                         (k, take (length (ahead st) - length (ahead st')) (ahead st)) # snd (snd st')))
               (rx_match r st))"
| "rx_match Bol = (\<lambda>st. if fst st = [] then [st] else [])"
| "rx_match Eol = (\<lambda>st. if ahead st = [] then [st] else [])"
| "rx_match WordB = (\<lambda>st. if at_word_boundary st then [st] else [])"

text \<open>The text of capture \<open>k\<close>; a group that took no part in the match gives the empty text.\<close>

definition cap :: "nat \<Rightarrow> (nat \<times> string) list \<Rightarrow> string" where
  "cap k caps = (case map_of caps k of None \<Rightarrow> [] | Some v \<Rightarrow> v)"

text \<open>The preferred match that starts where the matcher stands.\<close>

definition match_here :: "rx \<Rightarrow> string \<Rightarrow> string \<Rightarrow> mstate option" where
  "match_here r pre rest = (case rx_match r (pre, rest, []) of [] \<Rightarrow> None | st # sts \<Rightarrow> Some st)"

text \<open>
  \<open>r.exec(s)\<close> without the flag \<open>g\<close>: the leftmost start that has a match. The result is the
  text before the match (reversed) and the state at its end.
\<close>

fun rx_search :: "rx \<Rightarrow> string \<Rightarrow> string \<Rightarrow> (string \<times> mstate) option" where
  "rx_search r pre [] = (case match_here r pre [] of None \<Rightarrow> None | Some st \<Rightarrow> Some (pre, st))"
| "rx_search r pre (c # cs) =
     (case match_here r pre (c # cs) of
        None \<Rightarrow> rx_search r (c # pre) cs
      | Some st \<Rightarrow> Some (pre, st))"

definition rx_test :: "rx \<Rightarrow> string \<Rightarrow> bool" where
  "rx_test r s = (rx_search r [] s \<noteq> None)"

text \<open>
  \<open>s.replace(r, ...)\<close> with the flag \<open>g\<close>: every match, from left to right, gives way to the
  text that \<open>f\<close> builds from its captures. \<open>k\<close> counts the characters still to be passed
  over because the last match covered them.
\<close>

fun replace_all_from :: "rx \<Rightarrow> ((nat \<times> string) list \<Rightarrow> string) \<Rightarrow> nat \<Rightarrow> string \<Rightarrow> string \<Rightarrow> string" where
  "replace_all_from r f k pre [] =
     (if k = 0 then (case match_here r pre [] of None \<Rightarrow> [] | Some st \<Rightarrow> f (snd (snd st)))
      else [])"
| "replace_all_from r f k pre (c # cs) =
     (if 0 < k then replace_all_from r f (k - 1) (c # pre) cs
      else (case match_here r pre (c # cs) of
              None \<Rightarrow> c # replace_all_from r f 0 (c # pre) cs
            | Some st \<Rightarrow>
                let n = length (c # cs) - length (ahead st)
                in if n = 0 then f (snd (snd st)) @ c # replace_all_from r f 0 (c # pre) cs
                   else f (snd (snd st)) @ replace_all_from r f (n - 1) (c # pre) cs))"

definition replace_all :: "rx \<Rightarrow> ((nat \<times> string) list \<Rightarrow> string) \<Rightarrow> string \<Rightarrow> string" where
  "replace_all r f s = replace_all_from r f 0 [] s"

text \<open>\<open>s.replace(r, ...)\<close> without the flag \<open>g\<close>: the leftmost match only.\<close>

definition replace_first :: "rx \<Rightarrow> ((nat \<times> string) list \<Rightarrow> string) \<Rightarrow> string \<Rightarrow> string" where
  "replace_first r f s =
     (case rx_search r [] s of
        None \<Rightarrow> s
      | Some (pre, st) \<Rightarrow> rev pre @ f (snd (snd st)) @ ahead st)"

text \<open>Shorthands for the shapes of pattern that occur.\<close>

definition lits :: "string \<Rightarrow> rx" where
  "lits s = foldr (\<lambda>c r. Seq (Lit c) r) s Eps"

definition Plus :: "rx \<Rightarrow> rx" where
  "Plus r = Seq r (Star r)"

definition Opt :: "rx \<Rightarrow> rx" where
  "Opt r = Alt r Eps"

fun rep :: "nat \<Rightarrow> rx \<Rightarrow> rx" where
  "rep 0 r = Eps"
| "rep (Suc n) r = Seq r (rep n r)"

fun rep_upto :: "nat \<Rightarrow> rx \<Rightarrow> rx" where
  "rep_upto 0 r = Eps"
| "rep_upto (Suc n) r = Alt (Seq r (rep_upto n r)) Eps"

fun seqs :: "rx list \<Rightarrow> rx" where
  "seqs [] = Eps"
| "seqs (r # rs) = Seq r (seqs rs)"

text \<open>
  The classes: \<open>\\s\<close>, \<open>\\d\<close>, a hexadecimal digit, the dot (any character but a line
  terminator) and \<open>[\\s\\S]\<close> (any character).
\<close>

definition sp :: rx where
  "sp = Cls is_space"

definition is_digit :: "char \<Rightarrow> bool" where
  "is_digit c \<longleftrightarrow> 48 \<le> (of_char c :: nat) \<and> (of_char c :: nat) \<le> 57"

definition is_hex :: "char \<Rightarrow> bool" where
  "is_hex c \<longleftrightarrow> (let n = (of_char c :: nat)
                in (48 \<le> n \<and> n \<le> 57) \<or> (65 \<le> n \<and> n \<le> 70) \<or> (97 \<le> n \<and> n \<le> 102))"

definition dot :: rx where
  "dot = Cls (\<lambda>c. c \<noteq> CHR 0x0A \<and> c \<noteq> CHR 0x0D)"

definition anychar :: rx where
  "anychar = Cls (\<lambda>c. True)"

section \<open>The content renderer: \<open>renderContentToHtml\<close>\<close>

text \<open>
  Texts are lists of characters below 256. Two characters that the source's patterns
  name lie beyond that, the bullet in the test for a list item and the en dash among the
  separators of a colour line; no text of the model contains them, and the classes are
  written without them.
\<close>

text \<open>\<open>s.replace(/c/g, t)\<close> for a single character \<open>c\<close>.\<close>

definition replace_char :: "char \<Rightarrow> string \<Rightarrow> string \<Rightarrow> string" where
  "replace_char c t s = concat (map (\<lambda>x. if x = c then t else [x]) s)"

definition escape_html :: "string \<Rightarrow> string" where
  "escape_html text =
     replace_char CHR ''>'' ''&gt;'' (replace_char CHR ''<'' ''&lt;'' (replace_char CHR ''&'' ''&amp;'' text))"

text \<open>The function given to the replacement of fenced code: it turns the entities back.\<close>

definition restore_code :: "string \<Rightarrow> string" where
  "restore_code code =
     replace_all (lits ''&gt;'') (\<lambda>caps. ''>'')
       (replace_all (lits ''&lt;'') (\<lambda>caps. ''<'')
          (replace_all (lits ''&amp;'') (\<lambda>caps. ''&'') code))"

definition rx_fence :: rx where
  "rx_fence = seqs [lits ''```'', Grp 1 (StarLazy anychar), lits ''```'']"

definition rx_inline_code :: rx where
  "rx_inline_code = seqs [Lit CHR ''`'', Grp 1 (Plus (Cls (\<lambda>c. c \<noteq> CHR ''`''))), Lit CHR ''`'']"

definition rx_bold :: rx where
  "rx_bold = seqs [lits ''**'', Grp 1 (Plus (Cls (\<lambda>c. c \<noteq> CHR ''*''))), lits ''**'']"

definition rx_italic :: rx where
  "rx_italic = seqs [Lit CHR ''*'', Grp 1 (Plus (Cls (\<lambda>c. c \<noteq> CHR ''*''))), Lit CHR ''*'']"

definition emphasis :: "string \<Rightarrow> string" where
  "emphasis s =
     replace_all rx_italic (\<lambda>caps. ''<em>'' @ cap 1 caps @ ''</em>'')
       (replace_all rx_bold (\<lambda>caps. ''<strong>'' @ cap 1 caps @ ''</strong>'') s)"

definition rx_table_row :: rx where
  "rx_table_row = seqs [Bol, Lit CHR ''|'', Star dot, Lit CHR ''|'', Eol]"

definition rx_align :: rx where
  "rx_align = seqs [Bol, Opt (Lit CHR '':''), Lit CHR ''-'', Lit CHR ''-'', Star (Lit CHR ''-''),
                    Opt (Lit CHR '':''), Eol]"

definition rx_ul :: rx where
  "rx_ul = seqs [Bol, Cls (\<lambda>c. c = CHR ''-'' \<or> c = CHR ''*''), Plus sp]"

definition rx_ol :: rx where
  "rx_ol = seqs [Bol, Plus (Cls is_digit), Cls (\<lambda>c. c = CHR ''.'' \<or> c = CHR '')''), Plus sp]"

definition rx_heading :: rx where
  "rx_heading = seqs [Bol, Grp 1 (Seq (Lit CHR ''#'') (rep_upto 5 (Lit CHR ''#''))), Plus sp,
                      Grp 2 (Star dot), Eol]"

text \<open>\<open>s.includes(t)\<close>.\<close>

fun js_includes :: "string \<Rightarrow> string \<Rightarrow> bool" where
  "js_includes [] t = (t = [])"
| "js_includes (c # cs) t = (startsWith (c # cs) t \<or> js_includes cs t)"

record render_state =
  out :: string
  inUl :: bool
  inOl :: bool
  tableBuffer :: "string list"
  inPre :: bool

definition closeLists :: "render_state \<Rightarrow> render_state" where
  "closeLists st =
     st\<lparr>out := out st @ (if inUl st then ''</ul>'' else []) @ (if inOl st then ''</ol>'' else []),
        inUl := False, inOl := False\<rparr>"

definition isMdTableRow :: "string \<Rightarrow> bool" where
  "isMdTableRow line = rx_test rx_table_row line"

definition isAlignRow :: "string list \<Rightarrow> bool" where
  "isAlignRow cells = list_all (rx_test rx_align) cells"

text \<open>\<open>l.slice(1, -1)\<close>.\<close>

definition slice_inner :: "string \<Rightarrow> string" where
  "slice_inner l = butlast (tl l)"

definition table_open :: string where
  \<open>table_open = ''<table class="md-table">''\<close>

definition flushTable :: "render_state \<Rightarrow> render_state" where
  "flushTable st =
     (if tableBuffer st = [] then st
      else
        let rows = map (\<lambda>l. map trim (jsSplit ''|'' (slice_inner l))) (tableBuffer st);
            has_header = (2 \<le> length rows \<and> isAlignRow (rows ! 1));
            body = (if has_header then drop 2 rows else rows)
        in st\<lparr>out := out st @ table_open
                  @ (if has_header
                     then ''<thead><tr>''
                          @ concat (map (\<lambda>h. ''<th>'' @ h @ ''</th>'') (hd rows))
                          @ ''</tr></thead>''
                     else [])
                  @ ''<tbody>''
                  @ concat (map (\<lambda>r. ''<tr>'' @ concat (map (\<lambda>c. ''<td>'' @ c @ ''</td>'') r) @ ''</tr>'')
                              body)
                  @ ''</tbody></table>'',
               tableBuffer := []\<rparr>)"

text \<open>The body of the loop over the lines.\<close>

definition render_line :: "render_state \<Rightarrow> string \<Rightarrow> render_state" where
  "render_line st raw =
     (let line = trim raw in
      if line = [] then st
      else if js_includes line ''<pre><code'' then st\<lparr>inPre := True, out := out st @ line\<rparr>
      else if inPre st then
        st\<lparr>out := out st @ line, inPre := \<not> js_includes line ''</code></pre>''\<rparr>
      else if isMdTableRow line then st\<lparr>tableBuffer := tableBuffer st @ [line]\<rparr>
      else
        let st1 = (if tableBuffer st \<noteq> [] then flushTable st else st) in
        if rx_test rx_ul line then
          let st2 = (if \<not> inUl st1
                     then (closeLists st1)\<lparr>out := out (closeLists st1) @ ''<ul>'', inUl := True\<rparr>
                     else st1)
          in st2\<lparr>out := out st2 @ ''<li>'' @ emphasis (replace_first rx_ul (\<lambda>caps. []) line) @ ''</li>''\<rparr>
        else if rx_test rx_ol line then
          let st2 = (if \<not> inOl st1
                     then (closeLists st1)\<lparr>out := out (closeLists st1) @ ''<ol>'', inOl := True\<rparr>
                     else st1)
          in st2\<lparr>out := out st2 @ ''<li>'' @ emphasis (replace_first rx_ol (\<lambda>caps. []) line) @ ''</li>''\<rparr>
        else
          (case rx_search rx_heading [] line of
             Some (pre, hm) \<Rightarrow>
               let st2 = closeLists st1;
                   level = nat_to_dec (length (cap 1 (snd (snd hm))))
               in st2\<lparr>out := out st2 @ ''<h'' @ level @ ''>'' @ emphasis (cap 2 (snd (snd hm)))
                                @ ''</h'' @ level @ ''>''\<rparr>
           | None \<Rightarrow>
               let st2 = closeLists st1
               in st2\<lparr>out := out st2 @ ''<p>'' @ emphasis line @ ''</p>''\<rparr>))"

text \<open>The colour lines: a name, a separator and a colour, or a colour alone.\<close>

definition rx_hex_color :: rx where
  "rx_hex_color = Seq (Lit CHR ''#'') (Alt (rep 3 (Cls is_hex)) (rep 6 (Cls is_hex)))"

definition rx_palette :: rx where
  "rx_palette =
     seqs [Bol, Star sp,
           Opt (Seq (Cls (\<lambda>c. c = CHR ''-'' \<or> c = CHR ''*'')) (Star sp)),
           Grp 1 (StarLazy dot), Star sp,
           Cls (\<lambda>c. c = CHR '':'' \<or> c = CHR ''-''), Star sp,
           Grp 2 rx_hex_color]"

definition rx_bare_hex :: rx where
  "rx_bare_hex = seqs [WordB, Grp 1 rx_hex_color, WordB]"

text \<open>\<open>toUpperCase\<close>, used on the text of a colour only: \<open>#\<close> and hexadecimal digits.\<close>

definition upper :: "char \<Rightarrow> char" where
  "upper c = (if 97 \<le> (of_char c :: nat) \<and> (of_char c :: nat) \<le> 122
              then char_of (of_char c - 32 :: nat) else c)"

text \<open>The name and the colour of one line of the raw text, if it has a colour.\<close>

definition palette_row :: "string \<Rightarrow> (string \<times> string) option" where
  "palette_row l =
     (case rx_search rx_palette [] l of
        Some (pre, m) \<Rightarrow>
          Some (if cap 1 (snd (snd m)) \<noteq> [] then trim (cap 1 (snd (snd m))) else ''Color'',
                map upper (cap 2 (snd (snd m))))
      | None \<Rightarrow>
          (case rx_search rx_bare_hex [] l of
             Some (pre, m2) \<Rightarrow> Some (''Color'', map upper (cap 1 (snd (snd m2))))
           | None \<Rightarrow> None))"

text \<open>The rows in the order of their first occurrence, each pair of name and colour once.\<close>

fun unique_rows :: "string list \<Rightarrow> (string \<times> string) list \<Rightarrow> (string \<times> string) list" where
  "unique_rows seen [] = []"
| "unique_rows seen (r # rs) =
     (let key = fst r @ ''|'' @ snd r
      in if key \<in> set seen then unique_rows seen rs else r # unique_rows (key # seen) rs)"

definition palette_rows :: "string \<Rightarrow> (string \<times> string) list" where
  "palette_rows text = unique_rows [] (List.map_filter palette_row (jsSplit ''\<newline>'' text))"

definition swatch_table :: "(string \<times> string) list \<Rightarrow> string" where
  \<open>swatch_table rows =
     table_open @ ''<thead><tr><th>Color</th><th>HEX</th><th>Preview</th></tr></thead><tbody>''
     @ concat (map (\<lambda>r. ''<tr><td>'' @ fst r @ ''</td><td>'' @ snd r
                         @ ''</td><td><span class="swatch" style="background:'' @ snd r
                         @ ''"></span></td></tr>'') rows)
     @ ''</tbody></table>''\<close>

definition renderContentToHtml :: "string \<Rightarrow> string" where
  "renderContentToHtml text =
     (if text = [] then []
      else
        let escaped = escape_html text;
            html = replace_all rx_fence
                     (\<lambda>caps. ''<pre><code>'' @ restore_code (cap 1 caps) @ ''</code></pre>'') escaped;
            html2 = replace_all rx_inline_code (\<lambda>caps. ''<code>'' @ cap 1 caps @ ''</code>'') html;
            st0 = \<lparr>out = [], inUl = False, inOl = False, tableBuffer = [], inPre = False\<rparr>;
            st1 = foldl render_line st0 (jsSplit ''\<newline>'' html2);
            st2 = closeLists (if tableBuffer st1 \<noteq> [] then flushTable st1 else st1);
            rows = palette_rows text
        in if 2 \<le> length rows \<and> \<not> js_includes (out st2) ''<table''
           then out st2 @ swatch_table rows
           else out st2)"

section \<open>Notions used to state the properties of a session\<close>

text \<open>The history that the store holds for the conversation of a given id, if there is one.\<close>

definition history_of :: "string option \<Rightarrow> app \<Rightarrow> message list option" where
  "history_of cid s = map_option history (find_conv cid (conversations s))"

text \<open>The two shapes of message that \<open>sendMessage\<close> writes.\<close>

definition user_msg :: "string \<Rightarrow> nat \<Rightarrow> message" where
  "user_msg m t = \<lparr>role = User, content = m, elapsedMs = None, createdAt = Some t, pending = None\<rparr>"

definition assistant_msg :: "string \<Rightarrow> nat \<Rightarrow> bool option \<Rightarrow> message" where
  "assistant_msg c t p =
     \<lparr>role = Assistant, content = c, elapsedMs = None, createdAt = Some t, pending = p\<rparr>"

text \<open>The stored list is the list in memory, unless the store refuses writes.\<close>

definition stored_ok :: "app \<Rightarrow> bool" where
  "stored_ok s \<longleftrightarrow> storageFails s \<or> storedConversations s = Some (conversations s)"

text \<open>
  What holds of a session from its start to its end: the session's history is \<open>base\<close>
  followed by the assistant's entry, \<open>assistantPendingIndex\<close> points at that entry, and the
  owning conversation holds the same history.
\<close>

definition sess_inv :: "message list \<Rightarrow> nat \<Rightarrow> session \<Rightarrow> bool" where
  "sess_inv base t x \<longleftrightarrow>
     assistantPendingIndex x = length base
     \<and> generatingHistory x
         = base @ [assistant_msg (content (last (generatingHistory x))) t
                     (pending (last (generatingHistory x)))]
     \<and> history_of (generatingConvId x) (page x) = Some (generatingHistory x)
     \<and> stored_ok (page x)"

text \<open>The effect that ends a generation: \<open>isGenerating\<close> is set to false.\<close>

definition ends_generation :: "effect \<Rightarrow> bool" where
  "ends_generation e \<longleftrightarrow> e = SetGenerating False"



section \<open>Sample states\<close>

text \<open>Three conversations, the third one active and on screen, nothing being generated.\<close>

definition sample_convs :: "conversation list" where
  "sample_convs =
     [\<lparr>conv_id = ''c1'', title = ''Logo ideas'', avatarUrl = ''assets/female-2.webp'',
        history = [], conv_createdAt = 1\<rparr>,
      \<lparr>conv_id = ''c2'', title = ''Palette'', avatarUrl = ''assets/female-2.webp'',
        history = [], conv_createdAt = 2\<rparr>,
      \<lparr>conv_id = ''c3'', title = ''New Conversation'', avatarUrl = ''assets/female-2.webp'',
        history = [], conv_createdAt = 3\<rparr>]"

definition sample_app :: app where
  "sample_app =
     \<lparr>conversations = sample_convs, activeConversationId = Some ''c3'', chatHistory = [],
      isGenerating = False, lastUserMessage = [], userInput = ''Draw a logo '',
      storedConversations = Some sample_convs, storedActive = Some ''c3'', effects = [],
      storageFails = False, now = 10, nextId = ''k3x9q0ab'',
      defaultAvatar = ''assets/female-2.webp''\<rparr>"

text \<open>A stream that is cancelled after one chunk.\<close>

definition abort_sample :: response where
  \<open>abort_sample = Response True 200 [''data: {"chunk":"Hello wor","done":false}\<newline>\<newline>'']
     (ReadRejects (JsError ''AbortError'' ''The user aborted a request.''))\<close>


text \<open>A stream of one chunk that ends without a closing chunk.\<close>

definition no_done_sample :: "string list" where
  \<open>no_done_sample = [''data: {"chunk":"Hi","done":false}\<newline>\<newline>'']\<close>

section \<open>Properties of \<open>jsSplit\<close>\<close>

lemma startsWith_iff: "startsWith s p \<longleftrightarrow> (\<exists>t. s = p @ t)"
  unfolding startsWith_def
  by (metis append_eq_conv_conj append_take_drop_id)

lemma jsSplit_nonempty: "sep \<noteq> [] \<Longrightarrow> jsSplit sep s \<noteq> []"
  by (induction sep s rule: jsSplit.induct) (auto split: list.splits)

lemma jsSplit_single: "sep \<noteq> [] \<Longrightarrow> jsSplit sep s = [p] \<Longrightarrow> p = s"
  by (induction sep s arbitrary: p rule: jsSplit.induct)
     (auto split: list.splits if_splits simp: jsSplit_nonempty)

lemma jsSplit_short:
  "sep \<noteq> [] \<Longrightarrow> length s < length sep \<Longrightarrow> jsSplit sep s = [s]"
  by (induction sep s rule: jsSplit.induct) (auto split: list.splits simp: startsWith_def)

text \<open>
  Cutting a text that arrives in two pieces: the pieces of the first part but the last are
  final, and the last one is cut again once the second part is appended to it.
\<close>

lemma jsSplit_append:
  assumes "sep \<noteq> []"
  shows "jsSplit sep (a @ b) = butlast (jsSplit sep a) @ jsSplit sep (last (jsSplit sep a) @ b)"
  using assms
proof (induction sep a rule: jsSplit.induct)
  case (1 sep)
  then show ?case by simp
next
  case (2 sep c cs)
  note ne = \<open>sep \<noteq> []\<close>
  show ?case
  proof (cases "startsWith (c # cs) sep")
    case True
    then obtain t where t: "c # cs = sep @ t" by (auto simp: startsWith_iff)
    then have sw: "startsWith (c # cs @ b) sep"
      by (metis append_Cons append_assoc startsWith_iff)
    have d1: "drop (length sep) (c # cs) = t" using t by simp
    have d2: "drop (length sep) (c # cs @ b) = t @ b" using t
      by (metis append_Cons append_assoc append_eq_conv_conj)
    have ih: "jsSplit sep (t @ b) = butlast (jsSplit sep t) @ jsSplit sep (last (jsSplit sep t) @ b)"
      using "2.IH"(1)[OF ne True ne] d1 by simp
    have "jsSplit sep ((c # cs) @ b) = [] # jsSplit sep (t @ b)"
      using ne sw d2 by simp
    moreover have "jsSplit sep (c # cs) = [] # jsSplit sep t"
      using ne True d1 by simp
    ultimately show ?thesis using ih jsSplit_nonempty[OF ne, of t] by simp
  next
    case False
    note ih = "2.IH"(2)[OF ne False ne]
    obtain p ps where pps: "jsSplit sep cs = p # ps"
      using jsSplit_nonempty[OF ne, of cs] by (cases "jsSplit sep cs") auto
    have whole: "jsSplit sep (c # cs) = (c # p) # ps" using ne False pps by simp
    show ?thesis
    proof (cases "startsWith (c # cs @ b) sep")
      case sw: True
      have "length (c # cs) < length sep"
      proof (rule ccontr)
        assume "\<not> length (c # cs) < length sep"
        then have le: "length sep \<le> length (c # cs)" by simp
        from sw have "take (length sep) (c # cs @ b) = sep" by (simp add: startsWith_def)
        then have "take (length sep) (c # cs) = sep" using le
          by (metis append_Cons take_append diff_is_0_eq' take_0 append_Nil2)
        with False show False by (simp add: startsWith_def)
      qed
      then have "jsSplit sep (c # cs) = [c # cs]" using ne jsSplit_short by blast
      then show ?thesis by simp
    next
      case nsw: False
      obtain q qs where qqs: "jsSplit sep (cs @ b) = q # qs"
        using jsSplit_nonempty[OF ne, of "cs @ b"] by (cases "jsSplit sep (cs @ b)") auto
      have lhs: "jsSplit sep ((c # cs) @ b) = (c # q) # qs" using ne nsw qqs by simp
      show ?thesis
      proof (cases ps)
        case Nil
        then have "p = cs" using pps jsSplit_single[OF ne] by blast
        then show ?thesis using lhs whole Nil ne nsw qqs by simp
      next
        case (Cons r rs)
        then show ?thesis using lhs whole ih pps qqs by simp
      qed
    qed
  qed
qed

section \<open>Properties of the frame decoder\<close>

lemma try_line_buffer_upd:
  "try_line p cb l (d\<lparr>buffer := b\<rparr>) = map_prod id (\<lambda>x. x\<lparr>buffer := b\<rparr>) (try_line p cb l d)"
  unfolding try_line_def Let_def
  by (simp split: option.split json.split)

lemma handle_line_buffer_upd:
  "handle_line p cb (d\<lparr>buffer := b\<rparr>) l = (handle_line p cb d l)\<lparr>buffer := b\<rparr>"
  unfolding handle_line_def try_line_buffer_upd by simp

lemma foldl_handle_line_buffer_upd:
  "foldl (handle_line p cb) (d\<lparr>buffer := b\<rparr>) ls = (foldl (handle_line p cb) d ls)\<lparr>buffer := b\<rparr>"
  by (induction ls arbitrary: d) (simp_all add: handle_line_buffer_upd)

lemma handle_part_buffer_upd:
  "handle_part p cb (d\<lparr>buffer := b\<rparr>) part = (handle_part p cb d part)\<lparr>buffer := b\<rparr>"
  by (simp add: handle_part_def foldl_handle_line_buffer_upd)

lemma foldl_handle_part_buffer_upd:
  "foldl (handle_part p cb) (d\<lparr>buffer := b\<rparr>) ps = (foldl (handle_part p cb) d ps)\<lparr>buffer := b\<rparr>"
  by (induction ps arbitrary: d) (simp_all add: handle_part_buffer_upd)

text \<open>Two reads in a row do what one read of the two texts together does.\<close>

lemma read_step_append:
  "read_step p cb (read_step p cb d a) b = read_step p cb d (a @ b)"
proof -
  let ?sep = "''\<newline>\<newline>''"
  let ?A = "jsSplit ?sep (buffer d @ a)"
  let ?B = "jsSplit ?sep (last ?A @ b)"
  have ne: "?sep \<noteq> []" by simp
  have split: "jsSplit ?sep (buffer d @ a @ b) = butlast ?A @ ?B"
    using jsSplit_append[OF ne, of "buffer d @ a" b] by simp
  have Bne: "?B \<noteq> []" using jsSplit_nonempty[OF ne] by blast
  have buf: "buffer (read_step p cb d a) = last ?A"
    by (simp add: read_step_def Let_def foldl_handle_part_buffer_upd)
  have "read_step p cb (read_step p cb d a) b =
        foldl (handle_part p cb) ((read_step p cb d a)\<lparr>buffer := last ?B\<rparr>) (butlast ?B)"
    by (simp add: read_step_def[of p cb "read_step p cb d a"] Let_def buf)
  also have "\<dots> = (foldl (handle_part p cb) (foldl (handle_part p cb) d (butlast ?A)) (butlast ?B))
                    \<lparr>buffer := last ?B\<rparr>"
    by (simp add: read_step_def[of p cb d] Let_def foldl_handle_part_buffer_upd)
  also have "\<dots> = read_step p cb d (a @ b)"
    using Bne
    by (simp add: read_step_def[of p cb d] Let_def split foldl_handle_part_buffer_upd butlast_append)
  finally show ?thesis .
qed

lemma read_step_empty: "read_step p cb decoder0 [] = decoder0"
  by (simp add: read_step_def decoder0_def startsWith_def)

lemma foldl_read_step:
  "foldl (read_step p cb) (read_step p cb d a) ds = read_step p cb d (a @ concat ds)"
  by (induction ds arbitrary: a) (simp_all add: read_step_append)

lemma read_loop_concat: "read_loop p cb [concat ds] = read_loop p cb ds"
  using foldl_read_step[of p cb decoder0 "[]" ds]
  by (simp add: read_loop_def read_step_empty)

text \<open>
  C3. However the text of a stream is cut into the deltas that the reads deliver,
  \<open>streamCopilotChat\<close> makes the same calls to the chunk and progress callbacks, in the
  same order, and settles the same way, as when the whole text arrives in one read.
\<close>

theorem decoder_boundary_insensitive:
  "streamCopilotChat json_parse cb (Response is_ok st ds en)
   = streamCopilotChat json_parse cb (Response is_ok st [concat ds] en)"
  by (cases en) (simp_all add: read_loop_concat)

section \<open>Properties of the conversation store\<close>

lemma findIndex_Some: "findIndex P xs = Some i \<Longrightarrow> i < length xs \<and> P (xs ! i)"
  by (induction xs arbitrary: i) (auto split: if_splits option.splits)

lemma findIndex_None: "findIndex P xs = None \<longleftrightarrow> (\<forall>x \<in> set xs. \<not> P x)"
  by (induction xs) (auto split: option.splits)

lemma conversations_save [simp]: "conversations (saveConversations s) = conversations s"
  by (simp add: saveConversations_def)

lemma active_save [simp]: "activeConversationId (saveConversations s) = activeConversationId s"
  by (simp add: saveConversations_def)

lemma isGenerating_save [simp]: "isGenerating (saveConversations s) = isGenerating s"
  by (simp add: saveConversations_def)

lemma effects_save [simp]: "effects (saveConversations s) = effects s"
  by (simp add: saveConversations_def)

lemma chatHistory_save [simp]: "chatHistory (saveConversations s) = chatHistory s"
  by (simp add: saveConversations_def)

lemma storageFails_save [simp]: "storageFails (saveConversations s) = storageFails s"
  by (simp add: saveConversations_def)

lemma nextId_save [simp]: "nextId (saveConversations s) = nextId s"
  by (simp add: saveConversations_def)

lemma now_save [simp]: "now (saveConversations s) = now s"
  by (simp add: saveConversations_def)

lemma defaultAvatar_save [simp]: "defaultAvatar (saveConversations s) = defaultAvatar s"
  by (simp add: saveConversations_def)

lemma length_splice1: "idx < length xs \<Longrightarrow> length (splice1 idx xs) = length xs - 1"
  by (simp add: splice1_def)

text \<open>
  C5. Let the conversation of id \<open>i\<close> stand at index \<open>idx\<close> of the list. After
  \<open>deleteConversation i\<close> the list is not empty. If the conversation was the only one, the
  list holds exactly one fresh conversation with the default title and an empty history,
  and it is the active one. Otherwise the list is the old one without the entry at
  \<open>idx\<close>, and if the deleted conversation was the active one, the active conversation is
  now the one at the smaller of \<open>idx\<close> and the last index of the new list.
\<close>

theorem deleteConversation_never_empties:
  assumes "findIndex (\<lambda>c. conv_id c = i) (conversations s) = Some idx"
  shows "conversations (deleteConversation i s) \<noteq> []
    \<and> (length (conversations s) = 1 \<longrightarrow>
         conversations (deleteConversation i s)
           = [\<lparr>conv_id = nextId s, title = ''New Conversation'', avatarUrl = defaultAvatar s,
               history = [], conv_createdAt = now s\<rparr>]
         \<and> activeConversationId (deleteConversation i s) = Some (nextId s))
    \<and> (1 < length (conversations s) \<longrightarrow>
         conversations (deleteConversation i s) = splice1 idx (conversations s))
    \<and> (1 < length (conversations s) \<and> activeConversationId s = Some i \<longrightarrow>
         activeConversationId (deleteConversation i s)
           = Some (conv_id (conversations (deleteConversation i s)
                             ! min idx (length (conversations (deleteConversation i s)) - 1))))"
proof -
  have lt: "idx < length (conversations s)" using assms findIndex_Some by blast
  have len: "length (splice1 idx (conversations s)) = length (conversations s) - 1"
    using lt by (rule length_splice1)
  show ?thesis
  proof (cases "length (conversations s) = 1")
    case True
    then have e: "splice1 idx (conversations s) = []" using len by simp
    show ?thesis using assms True e
      by (simp add: deleteConversation_def Let_def createNewConversation_def)
  next
    case False
    then have gt: "1 < length (conversations s)" using lt by simp
    then have ne: "splice1 idx (conversations s) \<noteq> []" using len by auto
    show ?thesis using assms False gt ne
      by (simp add: deleteConversation_def Let_def)
  qed
qed

theorem deleteConversation_never_empties_witness:
  "findIndex (\<lambda>c. conv_id c = ''c3'') (conversations sample_app) = Some 2
   \<and> conversations (deleteConversation ''c3'' sample_app) = take 2 sample_convs
   \<and> activeConversationId (deleteConversation ''c3'' sample_app) = Some ''c2''"
proof -
  have h: "findIndex (\<lambda>c. conv_id c = ''c3'') (conversations sample_app) = Some 2"
    by (simp add: sample_app_def sample_convs_def)
  have l: "1 < length (conversations sample_app)"
    by (simp add: sample_app_def sample_convs_def)
  have a: "activeConversationId sample_app = Some ''c3''"
    by (simp add: sample_app_def)
  have sp: "splice1 2 (conversations sample_app) = take 2 sample_convs"
    by (simp add: sample_app_def sample_convs_def splice1_def)
  from deleteConversation_never_empties[OF h] l a
  have c: "conversations (deleteConversation ''c3'' sample_app) = splice1 2 (conversations sample_app)"
    and b: "activeConversationId (deleteConversation ''c3'' sample_app)
           = Some (conv_id (conversations (deleteConversation ''c3'' sample_app)
                             ! min 2 (length (conversations (deleteConversation ''c3'' sample_app)) - 1)))"
    by blast+
  have "activeConversationId (deleteConversation ''c3'' sample_app) = Some ''c2''"
    using b unfolding c sp by (simp add: sample_convs_def)
  then show ?thesis using h c sp by simp
qed

section \<open>Properties of the generation session\<close>

lemma find_conv_Some: "find_conv cid cs = Some c \<Longrightarrow> cid = Some (conv_id c) \<and> c \<in> set cs"
  unfolding find_conv_def by (induction cs) (auto split: if_splits)

lemma find_conv_update_first:
  assumes "\<And>c. conv_id (f c) = conv_id c"
  shows "find_conv cid (update_first (\<lambda>c. conv_id c = k) f cs)
         = (if cid = Some k then map_option f (find_conv cid cs) else find_conv cid cs)"
  unfolding find_conv_def by (induction cs) (auto simp: assms)

lemma history_of_frame [simp]:
  "history_of cid (s\<lparr>effects := e\<rparr>) = history_of cid s"
  "history_of cid (s\<lparr>userInput := u\<rparr>) = history_of cid s"
  "history_of cid (s\<lparr>lastUserMessage := l\<rparr>) = history_of cid s"
  "history_of cid (s\<lparr>isGenerating := g\<rparr>) = history_of cid s"
  "history_of cid (s\<lparr>chatHistory := h\<rparr>) = history_of cid s"
  "history_of cid (saveConversations s) = history_of cid s"
  by (simp_all add: history_of_def)

lemma stored_ok_frame [simp]:
  "stored_ok (s\<lparr>effects := e\<rparr>) = stored_ok s"
  "stored_ok (s\<lparr>userInput := u\<rparr>) = stored_ok s"
  "stored_ok (s\<lparr>lastUserMessage := l\<rparr>) = stored_ok s"
  "stored_ok (s\<lparr>isGenerating := g\<rparr>) = stored_ok s"
  "stored_ok (s\<lparr>chatHistory := h\<rparr>) = stored_ok s"
  by (simp_all add: stored_ok_def)

lemma stored_ok_save [simp]: "stored_ok (saveConversations s)"
  by (simp add: stored_ok_def saveConversations_def)

lemma history_of_set_history:
  "history_of cid (set_history k h s)
     = (if cid = Some k \<and> history_of cid s \<noteq> None then Some h else history_of cid s)"
  by (auto simp: history_of_def set_history_def find_conv_update_first)

lemma history_of_persist:
  "history_of cid (persistConversationHistory k h s)
     = (if cid = k \<and> history_of cid s \<noteq> None then Some h else history_of cid s)"
  by (auto simp: persistConversationHistory_def history_of_set_history
           dest: find_conv_Some split: option.splits)
     (auto simp: history_of_def)


lemma stored_ok_persist:
  "history_of cid s \<noteq> None \<Longrightarrow> stored_ok (persistConversationHistory cid h s)"
  by (auto simp: persistConversationHistory_def history_of_def split: option.splits)

lemma persist_fields [simp]:
  "isGenerating (persistConversationHistory cid h s) = isGenerating s"
  "activeConversationId (persistConversationHistory cid h s) = activeConversationId s"
  "chatHistory (persistConversationHistory cid h s) = chatHistory s"
  "storageFails (persistConversationHistory cid h s) = storageFails s"
  "now (persistConversationHistory cid h s) = now s"
  by (simp_all add: persistConversationHistory_def set_history_def split: option.splits)

lemma effects_persist:
  "effects (persistConversationHistory cid h s)
     = effects s @ (if history_of cid s = None then [] else [SetHistory (the cid) h])"
  by (auto simp: persistConversationHistory_def set_history_def history_of_def
           dest: find_conv_Some split: option.splits)

lemma history_of_rename [simp]:
  "history_of cid (rename_from_message m s) = history_of cid s"
  by (auto simp: history_of_def rename_from_message_def Let_def getActiveConv_def
        find_conv_update_first option.map_comp comp_def split: option.splits)

lemma rename_fields [simp]:
  "isGenerating (rename_from_message m s) = isGenerating s"
  "activeConversationId (rename_from_message m s) = activeConversationId s"
  "chatHistory (rename_from_message m s) = chatHistory s"
  "storageFails (rename_from_message m s) = storageFails s"
  "now (rename_from_message m s) = now s"
  "effects (rename_from_message m s) = effects s"
  by (simp_all add: rename_from_message_def Let_def split: option.splits)

lemma add_fields [simp]:
  "isGenerating (addMessageToChat r c s) = isGenerating s"
  "activeConversationId (addMessageToChat r c s) = activeConversationId s"
  "chatHistory (addMessageToChat r c s) = chatHistory s @ [\<lparr>role = r, content = c, elapsedMs = None, createdAt = Some (now s), pending = None\<rparr>]"
  "storageFails (addMessageToChat r c s) = storageFails s"
  "now (addMessageToChat r c s) = now s"
  by (simp_all add: addMessageToChat_def Let_def set_history_def getActiveConv_def split: option.splits)

lemma getActiveConv_None: "getActiveConv s = None \<longleftrightarrow> history_of (activeConversationId s) s = None"
  by (simp add: getActiveConv_def history_of_def)

lemma effects_add:
  "effects (addMessageToChat r c s)
     = effects s @ (if history_of (activeConversationId s) s = None then []
        else [SetHistory (the (activeConversationId s)) (chatHistory s @ [\<lparr>role = r, content = c, elapsedMs = None, createdAt = Some (now s), pending = None\<rparr>])])"
  by (auto simp: addMessageToChat_def Let_def set_history_def getActiveConv_def history_of_def
        dest: find_conv_Some split: option.splits)

lemma history_of_add:
  "history_of cid (addMessageToChat r c s)
     = (if cid = activeConversationId s \<and> history_of cid s \<noteq> None
        then Some (chatHistory s @ [\<lparr>role = r, content = c, elapsedMs = None, createdAt = Some (now s), pending = None\<rparr>])
        else history_of cid s)"
  by (auto simp: addMessageToChat_def Let_def getActiveConv_def history_of_set_history
           dest: find_conv_Some split: option.splits)
     (auto simp: history_of_def)

lemma start_session_inv:
  assumes "find_conv (activeConversationId s) (conversations s) = Some c"
  shows "sess_inv (history c @ [user_msg m (now s)]) (now s) (start_session m s)"
    and "generatingConvId (start_session m s) = activeConversationId s"
    and "generatingHistory (start_session m s)
           = history c @ [user_msg m (now s), assistant_msg ''Generating...'' (now s) (Some True)]"
    and "streamedContent (start_session m s) = []"
    and "isGenerating (page (start_session m s))"
    and "divLoading (start_session m s)"
    and "now (page (start_session m s)) = now s"
    and "storageFails (page (start_session m s)) = storageFails s"
    and "activeConversationId (page (start_session m s)) = activeConversationId s"
proof -
  have h: "history_of (activeConversationId s) s = Some (history c)"
    using assms by (simp add: history_of_def)
  show "sess_inv (history c @ [user_msg m (now s)]) (now s) (start_session m s)"
    using assms h
    by (simp add: sess_inv_def start_session_def Let_def history_of_persist history_of_add
          user_msg_def assistant_msg_def stored_ok_persist)
qed (simp_all add: start_session_def Let_def assms user_msg_def assistant_msg_def)



lemma sess_inv_history:
  "sess_inv base t x \<Longrightarrow> \<exists>cn pd. generatingHistory x = base @ [assistant_msg cn t pd]"
  unfolding sess_inv_def by metis

lemma onChunk_inv:
  assumes "sess_inv base t x"
  shows "sess_inv base t (onChunk c d x)"
    and "streamedContent (onChunk c d x) = streamedContent x @ c"
    and "generatingHistory (onChunk c d x)
           = base @ [assistant_msg (streamedContent x @ c) t (if d then None else Some True)]"
    and "generatingConvId (onChunk c d x) = generatingConvId x"
    and "\<not> divLoading (onChunk c d x)"
    and "isGenerating (page (onChunk c d x)) = (if d then False else isGenerating (page x))"
    and "storageFails (page (onChunk c d x)) = storageFails (page x)"
proof -
  obtain cn pd where gh: "generatingHistory x = base @ [assistant_msg cn t pd]"
    using sess_inv_history[OF assms] by blast
  have i: "assistantPendingIndex x = length base" using assms by (simp add: sess_inv_def)
  have ho: "history_of (generatingConvId x) (page x) \<noteq> None" using assms by (simp add: sess_inv_def)
  show "generatingHistory (onChunk c d x)
           = base @ [assistant_msg (streamedContent x @ c) t (if d then None else Some True)]"
    by (simp add: onChunk_def Let_def gh i put_entry_def assistant_msg_def)
  then show "sess_inv base t (onChunk c d x)"
    using ho
    by (simp add: sess_inv_def assistant_msg_def)
       (simp add: onChunk_def Let_def gh i put_entry_def assistant_msg_def history_of_persist stored_ok_persist)
qed (simp_all add: onChunk_def Let_def)


lemma foldl_calls_inv:
  assumes "sess_inv base t x"
  shows "sess_inv base t (foldl apply_call x cs)
       \<and> streamedContent (foldl apply_call x cs) = streamedContent x @ chunk_text cs
       \<and> generatingConvId (foldl apply_call x cs) = generatingConvId x
       \<and> storageFails (page (foldl apply_call x cs)) = storageFails (page x)"
  using assms
proof (induction cs arbitrary: x)
  case Nil
  then show ?case by simp
next
  case (Cons a cs)
  show ?case
  proof (cases a)
    case (OnProgress e)
    then show ?thesis using Cons by simp
  next
    case (OnChunk c d)
    note oc = onChunk_inv[OF Cons.prems, of c d]
    show ?thesis using Cons.IH[OF oc(1)] oc(2,4,7) OnChunk by simp
  qed
qed

lemma foldl_no_chunk:
  "\<not> list_ex is_chunk cs \<Longrightarrow> foldl apply_call x cs = x"
proof (induction cs arbitrary: x)
  case Nil
  then show ?case by simp
next
  case (Cons a cs)
  then show ?case by (cases a) simp_all
qed

lemma on_error_inv:
  assumes "sess_inv base t x"
  shows "sess_inv base t (on_error e x)"
    and "\<not> isGenerating (page (on_error e x))"
    and "\<not> divLoading (on_error e x)"
    and "generatingConvId (on_error e x) = generatingConvId x"
    and "streamedContent x = [] \<Longrightarrow> generatingHistory (on_error e x) = generatingHistory x"
    and "streamedContent x \<noteq> [] \<Longrightarrow> wasAborted e \<Longrightarrow>
          generatingHistory (on_error e x)
            = base @ [assistant_msg (streamedContent x @ ''\<newline>\<newline>[Generation stopped]'') t None]"
    and "streamedContent x \<noteq> [] \<Longrightarrow> \<not> wasAborted e \<Longrightarrow>
          generatingHistory (on_error e x)
            = base @ [assistant_msg (streamedContent x @ ''\<newline>\<newline>'' @ ''Error: ''
                       @ (if err_message e \<noteq> [] then err_message e else ''Unknown error'')) t None]"
proof -
  obtain cn pd where gh: "generatingHistory x = base @ [assistant_msg cn t pd]"
    using sess_inv_history[OF assms] by blast
  have i: "assistantPendingIndex x = length base" using assms by (simp add: sess_inv_def)
  have ho: "history_of (generatingConvId x) (page x) = Some (generatingHistory x)"
    and so: "stored_ok (page x)" using assms by (simp_all add: sess_inv_def)
  show "sess_inv base t (on_error e x)"
    using ho so
    by (simp add: sess_inv_def on_error_def Let_def gh i assistant_msg_def history_of_persist stored_ok_persist)
  show "streamedContent x = [] \<Longrightarrow> generatingHistory (on_error e x) = generatingHistory x"
    by (simp add: on_error_def Let_def)
  show "streamedContent x \<noteq> [] \<Longrightarrow> wasAborted e \<Longrightarrow>
          generatingHistory (on_error e x)
            = base @ [assistant_msg (streamedContent x @ ''\<newline>\<newline>[Generation stopped]'') t None]"
    by (simp add: on_error_def Let_def gh i assistant_msg_def)
  show "streamedContent x \<noteq> [] \<Longrightarrow> \<not> wasAborted e \<Longrightarrow>
          generatingHistory (on_error e x)
            = base @ [assistant_msg (streamedContent x @ ''\<newline>\<newline>'' @ ''Error: ''
                       @ (if err_message e \<noteq> [] then err_message e else ''Unknown error'')) t None]"
    by (simp add: on_error_def Let_def gh i assistant_msg_def)
qed (simp_all add: on_error_def Let_def)

text \<open>
  C6. While \<open>isGenerating\<close> is true, \<open>sendMessage\<close> returns at its first statement: the
  state after it is the state before it, in every variable and in both keys of the store.
\<close>

theorem sendMessage_while_generating_is_noop:
  "isGenerating s \<Longrightarrow> sendMessage json_parse pt resp s = s"
  by (simp add: sendMessage_def)

theorem sendMessage_while_generating_is_noop_witness:
  "isGenerating (sample_app\<lparr>isGenerating := True\<rparr>)
   \<and> sendMessage json_parse_sample never_throws (Response True 200 [] EndOfStream)
         (sample_app\<lparr>isGenerating := True\<rparr>)
       = sample_app\<lparr>isGenerating := True\<rparr>"
proof -
  have h: "isGenerating (sample_app\<lparr>isGenerating := True\<rparr>)" by simp
  show ?thesis
    using h sendMessage_while_generating_is_noop[OF h, of json_parse_sample never_throws
                 "Response True 200 [] EndOfStream"]
    by simp
qed

lemma run_session_abort:
  assumes c: "find_conv (activeConversationId s) (conversations s) = Some c"
    and ab: "wasAborted e"
    and tx: "chunk_text (calls (read_loop json_parse (session_callbacks pt) ds)) \<noteq> []"
  shows "history_of (activeConversationId s) (page (run_session json_parse pt m (Response True st ds (ReadRejects e)) s))
           = Some (history c @ [user_msg m (now s),
                assistant_msg (chunk_text (calls (read_loop json_parse (session_callbacks pt) ds)) @ ''\<newline>\<newline>[Generation stopped]'') (now s) None])
       \<and> \<not> isGenerating (page (run_session json_parse pt m (Response True st ds (ReadRejects e)) s))
       \<and> stored_ok (page (run_session json_parse pt m (Response True st ds (ReadRejects e)) s))"
proof -
  let ?x0 = "start_session m s"
  let ?cs = "calls (read_loop json_parse (session_callbacks pt) ds)"
  let ?x1 = "foldl apply_call ?x0 ?cs"
  note st = start_session_inv[OF c, of m]
  have f: "sess_inv (history c @ [user_msg m (now s)]) (now s) ?x1"
    "streamedContent ?x1 = chunk_text ?cs"
    "generatingConvId ?x1 = activeConversationId s"
    using foldl_calls_inv[OF st(1), of ?cs] st(2,4) by simp_all
  have ne: "streamedContent ?x1 \<noteq> []" using f(2) tx by simp
  note oe = on_error_inv[OF f(1), of e]
  have r: "run_session json_parse pt m (Response True st ds (ReadRejects e)) s = on_error e ?x1"
    by (simp add: run_session_def Let_def)
  have "history_of (generatingConvId (on_error e ?x1)) (page (on_error e ?x1)) = Some (generatingHistory (on_error e ?x1))"
    and "stored_ok (page (on_error e ?x1))"
    using oe(1) by (simp_all add: sess_inv_def)
  then show ?thesis using oe(2,4) oe(6)[OF ne ab] f(2,3) r by simp
qed

text \<open>
  C2. \<open>sendMessage\<close> starts with no generation under way, a message in the input field
  and an active conversation \<open>c\<close>. The chunks that arrive carry the text \<open>Hello wor\<close>, then
  a read rejects with an abort. Afterwards the history of the conversation that owned the
  session is its old history, the user's message, and the assistant's message with the
  content \<open>Hello wor\<close>, a blank line and \<open>[Generation stopped]\<close> and no \<open>pending\<close> flag;
  \<open>isGenerating\<close> is false; and the stored list is the list in memory, if the store takes
  writes.
\<close>

theorem cancel_after_partial_text:
  assumes "\<not> isGenerating s" and "trim (userInput s) \<noteq> []"
    and "find_conv (activeConversationId s) (conversations s) = Some c"
    and "chunk_text (calls (read_loop json_parse (session_callbacks pt) ds)) = ''Hello wor''"
    and "wasAborted e"
  shows "history_of (activeConversationId s)
           (sendMessage json_parse pt (Response True st ds (ReadRejects e)) s)
         = Some (history c @ [user_msg (trim (userInput s)) (now s),
                  assistant_msg ''Hello wor\<newline>\<newline>[Generation stopped]'' (now s) None])
       \<and> \<not> isGenerating (sendMessage json_parse pt (Response True st ds (ReadRejects e)) s)
       \<and> stored_ok (sendMessage json_parse pt (Response True st ds (ReadRejects e)) s)"
proof -
  have "chunk_text (calls (read_loop json_parse (session_callbacks pt) ds)) \<noteq> []" using assms(4) by simp
  from run_session_abort[OF assms(3) assms(5) this, of "trim (userInput s)" st]
  show ?thesis using assms(1,2,4) by (simp add: sendMessage_def Let_def)
qed

theorem cancel_after_partial_text_witness:
  \<open>history_of (Some ''c3'') (sendMessage json_parse_sample never_throws abort_sample sample_app)
     = Some [user_msg ''Draw a logo'' 10,
             assistant_msg ''Hello wor\<newline>\<newline>[Generation stopped]'' 10 None]
   \<and> \<not> isGenerating (sendMessage json_parse_sample never_throws abort_sample sample_app)\<close>
proof -
  have g: "\<not> isGenerating sample_app" by (simp add: sample_app_def)
  have t: "trim (userInput sample_app) = ''Draw a logo''" by code_simp
  then have t': "trim (userInput sample_app) \<noteq> []" by simp
  have c: "find_conv (activeConversationId sample_app) (conversations sample_app) = Some (sample_convs ! 2)"
    by code_simp
  have k: \<open>chunk_text (calls (read_loop json_parse_sample (session_callbacks never_throws)
              [''data: {"chunk":"Hello wor","done":false}\<newline>\<newline>''])) = ''Hello wor''\<close>
    by code_simp
  have a: "wasAborted (JsError ''AbortError'' ''The user aborted a request.'')"
    by (simp add: wasAborted_def)
  have h: "history (sample_convs ! 2) = []" by (simp add: sample_convs_def)
  have n: "now sample_app = 10" "activeConversationId sample_app = Some ''c3''"
    by (simp_all add: sample_app_def)
  from cancel_after_partial_text[OF g t' c k a, of 200]
  show ?thesis unfolding abort_sample_def t h n by simp
qed

lemma run_session_error_no_chunk:
  assumes c: "find_conv (activeConversationId s) (conversations s) = Some c"
    and er: "snd (streamCopilotChat json_parse (session_callbacks pt) resp) = Some e"
    and nc: "\<not> list_ex is_chunk (fst (streamCopilotChat json_parse (session_callbacks pt) resp))"
  shows "history_of (activeConversationId s) (page (run_session json_parse pt m resp s))
           = Some (history c @ [user_msg m (now s), assistant_msg ''Generating...'' (now s) (Some True)])
       \<and> stored_ok (page (run_session json_parse pt m resp s))
       \<and> \<not> isGenerating (page (run_session json_parse pt m resp s))"
proof -
  let ?x0 = "start_session m s"
  note st = start_session_inv[OF c, of m]
  have r: "run_session json_parse pt m resp s = on_error e ?x0"
    using er foldl_no_chunk[OF nc] by (simp add: run_session_def Let_def)
  note oe = on_error_inv[OF st(1), of e]
  have "history_of (generatingConvId (on_error e ?x0)) (page (on_error e ?x0)) = Some (generatingHistory (on_error e ?x0))"
    and "stored_ok (page (on_error e ?x0))"
    using oe(1) by (simp_all add: sess_inv_def)
  then show ?thesis using oe(2,4) oe(5)[OF st(4)] st(2,3) r by simp
qed

text \<open>
  C10. \<open>sendMessage\<close> starts as before, and the request ends with an exception (the
  fetch or a read rejects, by an abort or a failure, or the status is not ok) before any
  call of the chunk callback. Afterwards the history of the owning conversation still ends
  with the entry written at the start of the session: content \<open>Generating...\<close>, \<open>pending\<close>
  true. The stored list says the same, if the store takes writes.
\<close>

theorem failure_before_first_chunk_leaves_placeholder:
  assumes "\<not> isGenerating s" and "trim (userInput s) \<noteq> []"
    and "find_conv (activeConversationId s) (conversations s) = Some c"
    and "snd (streamCopilotChat json_parse (session_callbacks pt) resp) = Some e"
    and "\<not> list_ex is_chunk (fst (streamCopilotChat json_parse (session_callbacks pt) resp))"
  shows "history_of (activeConversationId s) (sendMessage json_parse pt resp s)
         = Some (history c @ [user_msg (trim (userInput s)) (now s),
                  assistant_msg ''Generating...'' (now s) (Some True)])
       \<and> stored_ok (sendMessage json_parse pt resp s)"
  using run_session_error_no_chunk[OF assms(3,4,5), of "trim (userInput s)"] assms(1,2)
  by (simp add: sendMessage_def Let_def)

theorem failure_before_first_chunk_leaves_placeholder_witness:
  "history_of (Some ''c3'')
     (sendMessage json_parse_sample never_throws (Response False 503 [] EndOfStream) sample_app)
   = Some [user_msg ''Draw a logo'' 10, assistant_msg ''Generating...'' 10 (Some True)]"
proof -
  have g: "\<not> isGenerating sample_app" by (simp add: sample_app_def)
  have t: "trim (userInput sample_app) = ''Draw a logo''" by code_simp
  then have t': "trim (userInput sample_app) \<noteq> []" by simp
  have c: "find_conv (activeConversationId sample_app) (conversations sample_app) = Some (sample_convs ! 2)"
    by code_simp
  have e: "snd (streamCopilotChat json_parse_sample (session_callbacks never_throws)
               (Response False 503 [] EndOfStream))
             = Some (JsError ''Error'' ''Stream failed: 503'')"
    by code_simp
  have k: "\<not> list_ex is_chunk (fst (streamCopilotChat json_parse_sample (session_callbacks never_throws)
               (Response False 503 [] EndOfStream)))"
    by simp
  have h: "history (sample_convs ! 2) = []" by (simp add: sample_convs_def)
  have n: "now sample_app = 10" "activeConversationId sample_app = Some ''c3''"
    by (simp_all add: sample_app_def)
  from failure_before_first_chunk_leaves_placeholder[OF g t' c e k]
  show ?thesis unfolding t h n by simp
qed









lemma foldl_inv:
  assumes "\<And>d x. P d \<Longrightarrow> P (f d x)"
  shows "P d \<Longrightarrow> P (foldl f d xs)"
  by (induction xs arbitrary: d) (simp_all add: assms)

lemma try_line_inv: "dec_inv d \<Longrightarrow> dec_inv (snd (try_line p cb l d))"
  unfolding dec_inv_def try_line_def Let_def
  by (simp split: option.splits json.splits)

lemma handle_line_inv: "dec_inv d \<Longrightarrow> dec_inv (handle_line p cb d l)"
  unfolding handle_line_def by (simp add: try_line_inv)

lemma handle_part_inv: "dec_inv d \<Longrightarrow> dec_inv (handle_part p cb d part)"
  unfolding handle_part_def by (rule foldl_inv) (rule handle_line_inv)

lemma dec_inv_buffer: "dec_inv (d\<lparr>buffer := b\<rparr>) = dec_inv d"
  by (simp add: dec_inv_def)

lemma read_step_inv: "dec_inv d \<Longrightarrow> dec_inv (read_step p cb d delta)"
  unfolding read_step_def Let_def
  by (rule foldl_inv[where P = dec_inv]) (simp_all add: handle_part_inv dec_inv_buffer)

lemma read_loop_inv: "dec_inv (read_loop p cb ds)"
  unfolding read_loop_def
proof (rule foldl_inv[where P = dec_inv])
  show "dec_inv decoder0" by (simp add: dec_inv_def decoder0_def)
qed (rule read_step_inv)

lemma finish_calls_no_final:
  assumes "\<not> list_ex is_final (calls (read_loop p cb ds))"
  shows "finish_calls (read_loop p cb ds) = calls (read_loop p cb ds) @ [OnChunk [] True]"
  using assms read_loop_inv[of p cb ds] by (auto simp: finish_calls_def dec_inv_def)

lemma finish_calls_final: "dec_inv d \<Longrightarrow> list_ex is_final (finish_calls d)"
  by (auto simp: finish_calls_def dec_inv_def)

lemma onChunk_flags:
  "isGenerating (page (onChunk c d x)) = (\<not> d \<and> isGenerating (page x))"
  "\<not> divLoading (onChunk c d x)"
  by (simp_all add: onChunk_def Let_def)

lemma foldl_calls_flags:
  "isGenerating (page (foldl apply_call x cs)) = (isGenerating (page x) \<and> \<not> list_ex is_final cs)
   \<and> divLoading (foldl apply_call x cs) = (divLoading x \<and> \<not> list_ex is_chunk cs)"
proof (induction cs arbitrary: x)
  case Nil
  then show ?case by simp
next
  case (Cons a cs)
  then show ?case by (cases a) (auto simp: onChunk_flags)
qed

lemma run_session_finalizes:
  "\<not> divLoading (run_session json_parse pt m (Response True st ds EndOfStream) s)
   \<and> \<not> isGenerating (page (run_session json_parse pt m (Response True st ds EndOfStream) s))"
proof -
  let ?cs = "finish_calls (read_loop json_parse (session_callbacks pt) ds)"
  have f: "list_ex is_final ?cs" using finish_calls_final[OF read_loop_inv] .
  then have c: "list_ex is_chunk ?cs"
    unfolding list_ex_iff using is_final.elims(2) is_chunk.simps(1) by blast
  have "run_session json_parse pt m (Response True st ds EndOfStream) s
        = foldl apply_call (start_session m s) ?cs"
    by (simp add: run_session_def Let_def)
  then show ?thesis using foldl_calls_flags[of "start_session m s" ?cs] f c by simp
qed

lemma ends_persist:
  "filter ends_generation (effects (persistConversationHistory cid h s)) = filter ends_generation (effects s)"
  by (simp add: effects_persist ends_generation_def)

lemma ends_onChunk:
  "filter ends_generation (effects (page (onChunk c d x)))
     = filter ends_generation (effects (page x)) @ (if d then [SetGenerating False] else [])"
  by (simp add: onChunk_def Let_def ends_persist ends_generation_def)

lemma ends_foldl_no_final:
  "\<not> list_ex is_final cs \<Longrightarrow>
   filter ends_generation (effects (page (foldl apply_call x cs))) = filter ends_generation (effects (page x))"
proof (induction cs arbitrary: x)
  case Nil
  then show ?case by simp
next
  case (Cons a cs)
  then show ?case by (cases a) (simp_all add: ends_onChunk)
qed

lemma ends_start_session:
  "filter ends_generation (effects (page (start_session m s))) = filter ends_generation (effects s)"
  by (simp add: start_session_def Let_def ends_persist ends_generation_def effects_add)

lemma run_session_end_no_final:
  assumes c: "find_conv (activeConversationId s) (conversations s) = Some c"
    and nf: "\<not> list_ex is_final (calls (read_loop json_parse (session_callbacks pt) ds))"
  shows "history_of (activeConversationId s)
           (page (run_session json_parse pt m (Response True st ds EndOfStream) s))
         = Some (history c @ [user_msg m (now s),
                  assistant_msg (chunk_text (calls (read_loop json_parse (session_callbacks pt) ds)))
                    (now s) None])
       \<and> stored_ok (page (run_session json_parse pt m (Response True st ds EndOfStream) s))
       \<and> filter ends_generation (effects (page (run_session json_parse pt m (Response True st ds EndOfStream) s)))
           = filter ends_generation (effects s) @ [SetGenerating False]"
proof -
  let ?cs = "calls (read_loop json_parse (session_callbacks pt) ds)"
  let ?x0 = "start_session m s"
  let ?x1 = "foldl apply_call ?x0 ?cs"
  note st = start_session_inv[OF c, of m]
  have f: "sess_inv (history c @ [user_msg m (now s)]) (now s) ?x1"
    "streamedContent ?x1 = chunk_text ?cs"
    "generatingConvId ?x1 = activeConversationId s"
    using foldl_calls_inv[OF st(1), of ?cs] st(2,4) by simp_all
  note oc = onChunk_inv[OF f(1), of "[]" True]
  have r: "run_session json_parse pt m (Response True st ds EndOfStream) s = onChunk [] True ?x1"
    using finish_calls_no_final[OF nf] by (simp add: run_session_def Let_def)
  have h: "history_of (generatingConvId (onChunk [] True ?x1)) (page (onChunk [] True ?x1))
             = Some (generatingHistory (onChunk [] True ?x1))"
    and so: "stored_ok (page (onChunk [] True ?x1))"
    using oc(1) by (simp_all add: sess_inv_def)
  have e: "filter ends_generation (effects (page (onChunk [] True ?x1)))
             = filter ends_generation (effects s) @ [SetGenerating False]"
    by (simp add: ends_onChunk ends_foldl_no_final[OF nf] ends_start_session)
  show ?thesis using h so e oc(3,4) f(2,3) r by simp
qed

text \<open>
  C9. The stream ends, and none of the chunks delivered from it carried a true \<open>done\<close>;
  there may have been no chunk at all. Then \<open>streamCopilotChat\<close> makes the decoded calls
  and after them one call of the chunk callback with the empty text and \<open>done\<close> true, and
  resolves. That call is the only closing one. A run of \<open>sendMessage\<close> on a stream that ends
  has taken the class \<open>loading\<close> off the assistant's element and set \<open>isGenerating\<close> to
  false. And when the callbacks are those of \<open>sendMessage\<close> and the conversation \<open>c\<close> owns the
  session, the closing call finalizes it, once: the history of \<open>c\<close> afterwards is its old
  history, the user's message, and the assistant's message with all the streamed text as
  its content and no \<open>pending\<close> flag in place of the placeholder; the stored list is the
  list in memory, if the store takes writes; and the run has set \<open>isGenerating\<close> to false
  exactly once.
\<close>

theorem stream_end_without_done_finalizes_once:
  assumes "\<not> list_ex is_final (calls (read_loop json_parse cb ds))"
  shows "streamCopilotChat json_parse cb (Response True st ds EndOfStream)
           = (calls (read_loop json_parse cb ds) @ [OnChunk [] True], None)
       \<and> length (filter is_final (fst (streamCopilotChat json_parse cb (Response True st ds EndOfStream)))) = 1
       \<and> \<not> divLoading (run_session json_parse pt m (Response True st ds EndOfStream) s)
       \<and> \<not> isGenerating (page (run_session json_parse pt m (Response True st ds EndOfStream) s))
       \<and> (cb = session_callbacks pt
            \<and> find_conv (activeConversationId s) (conversations s) = Some c \<longrightarrow>
              history_of (activeConversationId s)
                (page (run_session json_parse pt m (Response True st ds EndOfStream) s))
              = Some (history c @ [user_msg m (now s),
                       assistant_msg (chunk_text (calls (read_loop json_parse cb ds))) (now s) None])
            \<and> stored_ok (page (run_session json_parse pt m (Response True st ds EndOfStream) s))
            \<and> filter ends_generation
                 (effects (page (run_session json_parse pt m (Response True st ds EndOfStream) s)))
               = filter ends_generation (effects s) @ [SetGenerating False])"
proof -
  have nf: "filter is_final (calls (read_loop json_parse cb ds)) = []"
    using assms by (simp add: list_ex_iff filter_empty_conv)
  have sc: "streamCopilotChat json_parse cb (Response True st ds EndOfStream)
           = (calls (read_loop json_parse cb ds) @ [OnChunk [] True], None)"
    using finish_calls_no_final[OF assms] by simp
  have se: "cb = session_callbacks pt
            \<and> find_conv (activeConversationId s) (conversations s) = Some c \<longrightarrow>
              history_of (activeConversationId s)
                (page (run_session json_parse pt m (Response True st ds EndOfStream) s))
              = Some (history c @ [user_msg m (now s),
                       assistant_msg (chunk_text (calls (read_loop json_parse cb ds))) (now s) None])
            \<and> stored_ok (page (run_session json_parse pt m (Response True st ds EndOfStream) s))
            \<and> filter ends_generation
                 (effects (page (run_session json_parse pt m (Response True st ds EndOfStream) s)))
               = filter ends_generation (effects s) @ [SetGenerating False]"
    using assms run_session_end_no_final[of s c json_parse pt ds m st] by blast
  show ?thesis using sc nf run_session_finalizes[of json_parse pt m st ds s] se by simp
qed

theorem stream_end_without_done_finalizes_once_witness:
  "\<not> list_ex is_final (calls (read_loop json_parse_sample (session_callbacks never_throws) no_done_sample))
   \<and> streamCopilotChat json_parse_sample (session_callbacks never_throws)
        (Response True 200 no_done_sample EndOfStream)
       = ([OnChunk ''Hi'' False, OnChunk [] True], None)
   \<and> history_of (Some ''c3'')
        (page (run_session json_parse_sample never_throws ''Draw a logo''
                 (Response True 200 no_done_sample EndOfStream) sample_app))
       = Some [user_msg ''Draw a logo'' 10, assistant_msg ''Hi'' 10 None]
   \<and> \<not> isGenerating (page (run_session json_parse_sample never_throws ''Draw a logo''
                            (Response True 200 no_done_sample EndOfStream) sample_app))
   \<and> \<not> list_ex is_final (calls (read_loop json_parse_sample (session_callbacks never_throws) []))
   \<and> streamCopilotChat json_parse_sample (session_callbacks never_throws) (Response True 200 [] EndOfStream)
       = ([OnChunk [] True], None)
   \<and> history_of (Some ''c3'')
        (page (run_session json_parse_sample never_throws ''Draw a logo''
                 (Response True 200 [] EndOfStream) sample_app))
       = Some [user_msg ''Draw a logo'' 10, assistant_msg [] 10 None]"
proof -
  have c1: "calls (read_loop json_parse_sample (session_callbacks never_throws) no_done_sample)
              = [OnChunk ''Hi'' False]"
    by code_simp
  have c2: "calls (read_loop json_parse_sample (session_callbacks never_throws) []) = []"
    by code_simp
  have h1: "\<not> list_ex is_final (calls (read_loop json_parse_sample (session_callbacks never_throws) no_done_sample))"
    unfolding c1 by simp
  have h2: "\<not> list_ex is_final (calls (read_loop json_parse_sample (session_callbacks never_throws) []))"
    unfolding c2 by simp
  have c: "find_conv (activeConversationId sample_app) (conversations sample_app) = Some (sample_convs ! 2)"
    by code_simp
  have h: "history (sample_convs ! 2) = []" by (simp add: sample_convs_def)
  have n: "now sample_app = 10" "activeConversationId sample_app = Some ''c3''"
    by (simp_all add: sample_app_def)
  from stream_end_without_done_finalizes_once[OF h1, of 200 never_throws "''Draw a logo''" sample_app "sample_convs ! 2"]
       stream_end_without_done_finalizes_once[OF h2, of 200 never_throws "''Draw a logo''" sample_app "sample_convs ! 2"]
  show ?thesis using h1 h2 c unfolding c1 c2 h n by simp
qed

text \<open>
  C1. The claim about an error frame fails on the code. The \<open>throw\<close> for a payload of type
  \<open>error\<close> stands inside the \<open>try\<close> whose \<open>catch\<close> is empty, so the exception, which does
  carry the frame's message, never leaves the loop body: the line is dropped like a
  malformed one, the frames after it are still delivered, and \<open>streamCopilotChat\<close>
  resolves.
\<close>

theorem error_frame_is_swallowed:
  \<open>try_line json_parse_sample never_throws ''data: {"type":"error","message":"boom"}'' decoder0
     = (Some (JsError ''Error'' ''boom''), decoder0)
   \<and> handle_line json_parse_sample never_throws decoder0 ''data: {"type":"error","message":"boom"}'' = decoder0
   \<and> streamCopilotChat json_parse_sample never_throws
        (Response True 200
           [''data: {"type":"error","message":"boom"}\<newline>\<newline>data: {"chunk":"Hi","done":false}\<newline>\<newline>'']
           EndOfStream)
      = ([OnChunk ''Hi'' False, OnChunk [] True], None)\<close>
  by code_simp

section \<open>Properties of the content renderer\<close>

text \<open>
  C7. The claim fails on the code in two places. Inside a fenced code block the
  replacement function turns the entities back into the characters, so \<open><\<close>, \<open>>\<close> and \<open>&\<close>
  reach the output as they are, not escaped at all. And the rows of the swatch table take
  the name of a colour from the raw text, not from the escaped one, so a \<open><\<close> in a name
  stands escaped in the paragraph and unescaped in the table.
\<close>

theorem fenced_code_and_swatch_names_are_not_escaped:
  \<open>renderContentToHtml ''```<b>```'' = ''<pre><code><b></code></pre>''
   \<and> renderContentToHtml ''a<b: #FFF\<newline>c: #000''
     = ''<p>a&lt;b: #FFF</p><p>c: #000</p>''
       @ ''<table class="md-table"><thead><tr><th>Color</th><th>HEX</th><th>Preview</th></tr></thead><tbody>''
       @ ''<tr><td>a<b</td><td>#FFF</td><td><span class="swatch" style="background:#FFF"></span></td></tr>''
       @ ''<tr><td>c</td><td>#000</td><td><span class="swatch" style="background:#000"></span></td></tr>''
       @ ''</tbody></table>''\<close>
  by code_simp

text \<open>
  C8. The claim fails on the code for colours of six digits. The pattern of a colour line
  offers three hexadecimal digits before six and nothing follows the colour in the pattern,
  so the match ends after three digits: \<open>Red: #FF0000\<close> gives the row \<open>(Red, #FF0)\<close>. The
  pattern for a colour alone ends with a word boundary and does read all six digits.
\<close>

theorem swatch_hex_is_cut_to_three_digits:
  \<open>palette_rows ''Red: #FF0000\<newline>Blue: #0000FF'' = [(''Red'', ''#FF0''), (''Blue'', ''#000'')]
   \<and> palette_row ''x#FF0000 y'' = Some (''Color'', ''#FF0000'')
   \<and> renderContentToHtml ''Red: #FF0000\<newline>Blue: #0000FF''
     = ''<p>Red: #FF0000</p><p>Blue: #0000FF</p>''
       @ ''<table class="md-table"><thead><tr><th>Color</th><th>HEX</th><th>Preview</th></tr></thead><tbody>''
       @ ''<tr><td>Red</td><td>#FF0</td><td><span class="swatch" style="background:#FF0"></span></td></tr>''
       @ ''<tr><td>Blue</td><td>#000</td><td><span class="swatch" style="background:#000"></span></td></tr>''
       @ ''</tbody></table>''\<close>
  by code_simp

end
